theory Spec2Isabelle
  imports Complex_Main
begin

section \<open>MAVLink to MQTT bridge: values, messages and telemetry records\<close>

text \<open>
  The bridge (\<^verbatim>\<open>mav-to-mqtt.py\<close>) reads MAVLink messages, turns each into a
  dictionary of telemetry fields, pushes it on a bounded queue and publishes the queue's
  content at a limited rate.

  Python values are modelled by the datatype \<open>pyval\<close>. Python's \<^verbatim>\<open>float\<close> is
  idealised as \<open>real\<close>: the rounding of float arithmetic, infinities and NaN are not
  modelled. The conversion of an \<^verbatim>\<open>int\<close> to a \<^verbatim>\<open>float\<close> is exact when the int
  is in the range of a double and raises \<^verbatim>\<open>OverflowError\<close> when it is not.
  \<open>PStr\<close> stands for every value that supports neither \<^verbatim>\<open>/\<close> nor is \<^verbatim>\<open>None\<close>.
\<close>

datatype pyval = PNone | PInt int | PFloat real | PStr string

datatype py_error = AttributeError | TypeError | OverflowError

text \<open>
  A MAVLink message as the bridge sees it: \<^verbatim>\<open>msg.get_type()\<close> and a set of named
  attributes. An attribute that the object does not have is \<open>None\<close> in \<open>attrs\<close>;
  an attribute bound to Python's \<^verbatim>\<open>None\<close> is \<open>Some PNone\<close>.
\<close>

record mav_msg =
  get_type :: string
  attrs :: "string \<rightharpoonup> pyval"

type_synonym telemetry = "string \<rightharpoonup> pyval"

text \<open>\<^verbatim>\<open>msg.name\<close>: raises \<^verbatim>\<open>AttributeError\<close> when the attribute is missing.\<close>

definition getattr :: "mav_msg \<Rightarrow> string \<Rightarrow> py_error + pyval" where
  "getattr msg name = (case attrs msg name of None \<Rightarrow> Inl AttributeError | Some v \<Rightarrow> Inr v)"

text \<open>\<^verbatim>\<open>getattr(msg, name, default)\<close>: never raises.\<close>

definition getattr_default :: "mav_msg \<Rightarrow> string \<Rightarrow> pyval \<Rightarrow> pyval" where
  "getattr_default msg name d = (case attrs msg name of None \<Rightarrow> d | Some v \<Rightarrow> v)"

text \<open>
  An int converts to a float when it rounds to a double: the ints from
  \<open>2 ^ 1024 - 2 ^ 970\<close> on, and their negatives, are "too large to convert to float".
\<close>

definition float_overflows :: "int \<Rightarrow> bool" where
  "float_overflows i = (2 ^ 1024 - 2 ^ 970 \<le> \<bar>i\<bar>)"

text \<open>
  \<^verbatim>\<open>v / d\<close> for a float literal \<open>d\<close>: a float for a float and for an int that
  converts to a float, \<^verbatim>\<open>OverflowError\<close> for an int that does not, \<^verbatim>\<open>TypeError\<close>
  for \<^verbatim>\<open>None\<close> and for a string. The divisors of the source are non-zero literals.
\<close>

definition truediv :: "pyval \<Rightarrow> real \<Rightarrow> py_error + real" where
  "truediv v d =
     (case v of
        PInt i \<Rightarrow> if float_overflows i then Inl OverflowError else Inr (real_of_int i / d)
      | PFloat x \<Rightarrow> Inr (x / d)
      | PNone \<Rightarrow> Inl TypeError
      | PStr s \<Rightarrow> Inl TypeError)"

text \<open>Sequencing of computations that may raise: the first error wins.\<close>

definition ebind :: "'e + 'a \<Rightarrow> ('a \<Rightarrow> 'e + 'b) \<Rightarrow> 'e + 'b" where
  "ebind r f = (case r of Inl e \<Rightarrow> Inl e | Inr a \<Rightarrow> f a)"

text \<open>\<^verbatim>\<open>msg.name / d\<close>, as a Python value.\<close>

definition scaled :: "mav_msg \<Rightarrow> string \<Rightarrow> real \<Rightarrow> py_error + pyval" where
  "scaled msg name d =
     ebind (getattr msg name) (\<lambda>v. ebind (truediv v d) (\<lambda>x. Inr (PFloat x)))"

text \<open>
  \<^verbatim>\<open>getattr(msg, name, None) / d if getattr(msg, name, None) is not None else None\<close>
\<close>

definition scaled_or_none :: "mav_msg \<Rightarrow> string \<Rightarrow> real \<Rightarrow> py_error + pyval" where
  "scaled_or_none msg name d =
     (if getattr_default msg name PNone \<noteq> PNone
      then ebind (truediv (getattr_default msg name PNone) d) (\<lambda>x. Inr (PFloat x))
      else Inr PNone)"

text \<open>The dictionary literal of the \<^verbatim>\<open>GLOBAL_POSITION_INT\<close> branch, evaluated in order.\<close>

definition position_fields :: "mav_msg \<Rightarrow> py_error + telemetry" where
  "position_fields msg =
     ebind (scaled msg ''lat'' 10000000) (\<lambda>lat.
     ebind (scaled msg ''lon'' 10000000) (\<lambda>lon.
     ebind (scaled msg ''alt'' 1000) (\<lambda>alt.
     ebind (scaled_or_none msg ''relative_alt'' 1000) (\<lambda>rel.
     ebind (scaled_or_none msg ''hdg'' 100) (\<lambda>hdg.
       Inr [''lat'' \<mapsto> lat, ''lon'' \<mapsto> lon, ''alt'' \<mapsto> alt,
            ''relative_alt'' \<mapsto> rel,
            ''vx'' \<mapsto> getattr_default msg ''vx'' PNone,
            ''vy'' \<mapsto> getattr_default msg ''vy'' PNone,
            ''vz'' \<mapsto> getattr_default msg ''vz'' PNone,
            ''hdg'' \<mapsto> hdg])))))"

text \<open>The dictionary literal of the \<^verbatim>\<open>VFR_HUD\<close> branch: no lookup in it can raise.\<close>

definition vfr_hud_fields :: "mav_msg \<Rightarrow> py_error + telemetry" where
  "vfr_hud_fields msg =
     Inr [''velocity'' \<mapsto> getattr_default msg ''vel'' PNone,
          ''alt'' \<mapsto> getattr_default msg ''alt'' PNone,
          ''airspeed'' \<mapsto> getattr_default msg ''airspeed'' PNone,
          ''groundspeed'' \<mapsto> getattr_default msg ''groundspeed'' PNone,
          ''throttle'' \<mapsto> getattr_default msg ''throttle'' PNone]"

text \<open>The dictionary literal of the \<^verbatim>\<open>GPS_RAW_INT\<close> branch.\<close>

definition gps_raw_fields :: "mav_msg \<Rightarrow> py_error + telemetry" where
  "gps_raw_fields msg =
     ebind (scaled msg ''lat'' 10000000) (\<lambda>lat.
     ebind (scaled msg ''lon'' 10000000) (\<lambda>lon.
     ebind (scaled msg ''alt'' 1000) (\<lambda>alt.
       Inr [''lat'' \<mapsto> lat, ''lon'' \<mapsto> lon, ''alt'' \<mapsto> alt,
            ''eph'' \<mapsto> getattr_default msg ''eph'' PNone,
            ''epv'' \<mapsto> getattr_default msg ''epv'' PNone])))"

text \<open>\<^verbatim>\<open>{k: v for k, v in t.items() if v is not None}\<close>\<close>

definition remove_none :: "telemetry \<Rightarrow> telemetry" where
  "remove_none t = (\<lambda>k. case t k of None \<Rightarrow> None | Some v \<Rightarrow> if v = PNone then None else Some v)"

text \<open>
  \<^verbatim>\<open>try: t.update({...}) except Exception: return None\<close>, followed by the final
  return of the function.
\<close>

definition update_or_none :: "telemetry \<Rightarrow> py_error + telemetry \<Rightarrow> telemetry option" where
  "update_or_none t r = (case r of Inl e \<Rightarrow> None | Inr u \<Rightarrow> Some (remove_none (t ++ u)))"

text \<open>
  \<^verbatim>\<open>build_telemetry_from_msg(msg, seq)\<close>; the third argument is the value that
  \<^verbatim>\<open>time.time()\<close> returns in the call.
\<close>

definition build_telemetry_from_msg :: "mav_msg \<Rightarrow> int \<Rightarrow> real \<Rightarrow> telemetry option" where
  "build_telemetry_from_msg msg seq now =
     (let t = [''seq'' \<mapsto> PInt seq, ''timestamp'' \<mapsto> PFloat now];
          mt = get_type msg
      in if mt = ''GLOBAL_POSITION_INT'' then update_or_none t (position_fields msg)
         else if mt = ''VFR_HUD'' then update_or_none t (vfr_hud_fields msg)
         else if mt = ''GPS_RAW_INT'' then update_or_none t (gps_raw_fields msg)
         else None)"


section \<open>The reader thread\<close>

text \<open>\<^verbatim>\<open>telemetry.get(key, default)\<close>\<close>

definition dict_get :: "telemetry \<Rightarrow> string \<Rightarrow> pyval \<Rightarrow> pyval" where
  "dict_get t key d = (case t key of None \<Rightarrow> d | Some v \<Rightarrow> v)"

text \<open>
  The velocity fallback of \<^verbatim>\<open>reader\<close>. The two divisions come first, so an exception
  in the \<^verbatim>\<open>try\<close> block leaves the dictionary as it was (\<^verbatim>\<open>except Exception: pass\<close>).
  \<^verbatim>\<open>x ** 0.5\<close> is the real power \<open>x powr (1/2)\<close>.
\<close>

definition velocity_fallback :: "telemetry \<Rightarrow> telemetry" where
  "velocity_fallback t =
     (if t ''velocity'' = None \<and> (t ''vx'' \<noteq> None \<or> t ''vy'' \<noteq> None)
      then (case ebind (truediv (dict_get t ''vx'' (PInt 0)) 100) (\<lambda>vx.
                 ebind (truediv (dict_get t ''vy'' (PInt 0)) 100) (\<lambda>vy.
                   Inr ((t(''velocity'' \<mapsto> PFloat ((vx * vx + vy * vy) powr (1 / 2))))
                          (''vx'' := None, ''vy'' := None))))
            of Inl e \<Rightarrow> t
             | Inr t' \<Rightarrow> t')
      else t)"

text \<open>
  \<^verbatim>\<open>queue.Queue(maxsize)\<close> of the standard library, as the list of its items, oldest
  first. A \<open>maxsize\<close> of zero or less makes the queue unbounded.
\<close>

datatype queue_error = Full | Empty

definition put_nowait :: "int \<Rightarrow> 'a list \<Rightarrow> 'a \<Rightarrow> queue_error + 'a list" where
  "put_nowait maxsize q x =
     (if 0 < maxsize \<and> maxsize \<le> int (length q) then Inl Full else Inr (q @ [x]))"

definition get_nowait :: "'a list \<Rightarrow> queue_error + ('a \<times> 'a list)" where
  "get_nowait q = (case q of [] \<Rightarrow> Inl Empty | x # r \<Rightarrow> Inr (x, r))"

text \<open>
  The push of \<^verbatim>\<open>reader\<close>: \<^verbatim>\<open>put_nowait\<close>; when that raises, \<^verbatim>\<open>get_nowait\<close> and
  \<^verbatim>\<open>put_nowait\<close> again, every exception of the second attempt being swallowed. The
  publisher runs in another thread, and its \<^verbatim>\<open>out_queue.get\<close> can take items between
  the queue calls of the reader: \<open>k1\<close> items between the \<^verbatim>\<open>put_nowait\<close> that raised
  and the \<^verbatim>\<open>get_nowait\<close>, \<open>k2\<close> items between the \<^verbatim>\<open>get_nowait\<close> and the second
  \<^verbatim>\<open>put_nowait\<close>. Each \<^verbatim>\<open>get\<close> takes the oldest item.
\<close>

definition push_with_gets :: "int \<Rightarrow> nat \<Rightarrow> nat \<Rightarrow> 'a list \<Rightarrow> 'a \<Rightarrow> 'a list" where
  "push_with_gets maxsize k1 k2 q x =
     (case put_nowait maxsize q x of
        Inr q' \<Rightarrow> q'
      | Inl e \<Rightarrow>
          (case get_nowait (drop k1 q) of
             Inl e' \<Rightarrow> drop k1 q
           | Inr (old, q') \<Rightarrow>
               (case put_nowait maxsize (drop k2 q') x of
                  Inl e' \<Rightarrow> drop k2 q'
                | Inr q'' \<Rightarrow> q'')))"

text \<open>The push when the publisher takes nothing between the queue calls.\<close>

definition push_drop_oldest :: "int \<Rightarrow> 'a list \<Rightarrow> 'a \<Rightarrow> 'a list" where
  "push_drop_oldest maxsize q x = push_with_gets maxsize 0 0 q x"

text \<open>
  The variables that \<^verbatim>\<open>bridge_loop\<close> shares between the reader and the publisher, and the list of
  the calls of \<^verbatim>\<open>mqttc.publish\<close> so far, each with the \<^verbatim>\<open>now\<close> of its iteration.
  The JSON text of a payload is not modelled: the published dictionary stands for it.
\<close>

record bridge_state =
  seq :: int
  last_pub :: real
  out_queue :: "telemetry list"
  published :: "(real \<times> telemetry) list"

definition initial_state :: bridge_state where
  "initial_state = \<lparr>seq = 0, last_pub = 0, out_queue = [], published = []\<rparr>"

text \<open>
  What \<^verbatim>\<open>mav.recv_match(blocking=True, timeout=2)\<close> does in one iteration: it returns
  \<^verbatim>\<open>None\<close>, raises, or returns a message; the message comes with the value of
  \<^verbatim>\<open>time.time()\<close> in the call of \<^verbatim>\<open>build_telemetry_from_msg\<close> that follows.
\<close>

datatype recv_result = Recv_none | Recv_raises | Recv_msg mav_msg real

text \<open>
  One iteration of the loop of \<^verbatim>\<open>reader\<close>, taken as one step of a run: the publisher
  takes nothing between its queue calls. A dictionary that
  \<^verbatim>\<open>build_telemetry_from_msg\<close> returns holds \<^verbatim>\<open>seq\<close>, so \<^verbatim>\<open>if telemetry\<close> is
  the test that it is not \<^verbatim>\<open>None\<close>.
\<close>

definition reader_iter :: "int \<Rightarrow> bridge_state \<Rightarrow> recv_result \<Rightarrow> bridge_state" where
  "reader_iter queue_size st r =
     (case r of
        Recv_none \<Rightarrow> st
      | Recv_raises \<Rightarrow> st
      | Recv_msg msg now \<Rightarrow>
          (let st1 = st\<lparr>seq := seq st + 1\<rparr>
           in case build_telemetry_from_msg msg (seq st1) now of
                None \<Rightarrow> st1
              | Some telemetry \<Rightarrow>
                  st1\<lparr>out_queue :=
                        push_drop_oldest queue_size (out_queue st1) (velocity_fallback telemetry)\<rparr>))"

section \<open>The publish loop\<close>

definition publish_interval :: "real \<Rightarrow> real" where
  "publish_interval rate_hz = 1 / max (1 / 10) rate_hz"

text \<open>
  One iteration of the publish loop of \<^verbatim>\<open>bridge_loop\<close>. \<^verbatim>\<open>out_queue.get(timeout=1.0)\<close>
  returns the oldest item, or raises \<^verbatim>\<open>Empty\<close> when the queue stays empty for the
  whole wait: on the list of items at the moment the call returns, that is
  \<open>get_nowait\<close>. The last argument is the value of \<^verbatim>\<open>time.time()\<close> after an item
  was taken.
\<close>

definition publisher_iter :: "real \<Rightarrow> bridge_state \<Rightarrow> real \<Rightarrow> bridge_state" where
  "publisher_iter rate_hz st now =
     (case get_nowait (out_queue st) of
        Inl e \<Rightarrow> st
      | Inr (telemetry, rest) \<Rightarrow>
          (let st1 = st\<lparr>out_queue := rest\<rparr>
           in if now - last_pub st1 < publish_interval rate_hz then st1
              else st1\<lparr>published := published st1 @ [(now, telemetry)], last_pub := now\<rparr>))"

text \<open>
  A run of the bridge is a sequence of iterations of the reader and of the publisher, in
  any order.
\<close>

datatype bridge_event = Reader recv_result | Publisher real

definition bridge_step :: "real \<Rightarrow> int \<Rightarrow> bridge_state \<Rightarrow> bridge_event \<Rightarrow> bridge_state" where
  "bridge_step rate_hz queue_size st ev =
     (case ev of
        Reader r \<Rightarrow> reader_iter queue_size st r
      | Publisher now \<Rightarrow> publisher_iter rate_hz st now)"

definition bridge_run :: "real \<Rightarrow> int \<Rightarrow> bridge_state \<Rightarrow> bridge_event list \<Rightarrow> bridge_state" where
  "bridge_run rate_hz queue_size st evs = foldl (bridge_step rate_hz queue_size) st evs"

section \<open>Start-up\<close>

text \<open>
  What \<^verbatim>\<open>main\<close> does is the list of its effects: lines on standard error, the call of
  \<^verbatim>\<open>bridge_loop\<close> with its arguments, and \<^verbatim>\<open>sys.exit\<close>.
\<close>

record mqtt_cfg =
  host :: string
  port :: int
  username :: "string option"
  password :: "string option"
  tls_ca :: "string option"
  tls_cert :: "string option"
  tls_key :: "string option"

record cli_args =
  arg_mav :: string
  arg_mqtt_host :: string
  arg_mqtt_port :: int
  arg_mqtt_user :: "string option"
  arg_mqtt_pass_file :: "string option"
  arg_tls_ca :: "string option"
  arg_tls_cert :: "string option"
  arg_tls_key :: "string option"
  arg_topic :: string
  arg_rate :: real
  arg_queue_size :: int

datatype effect =
    Stderr string
  | Bridge_loop string mqtt_cfg string real int
  | Sys_exit int

text \<open>
  \<^verbatim>\<open>str.strip()\<close>. A string is the list of its code points, all below 256; among them
  \<^verbatim>\<open>str.isspace\<close> holds of these twelve.
\<close>

definition isspace :: "char \<Rightarrow> bool" where
  "isspace c = (of_char c \<in> {9, 10, 11, 12, 13, 28, 29, 30, 31, 32, 133, 160 :: nat})"

definition strip :: "string \<Rightarrow> string" where
  "strip s = rev (dropWhile isspace (rev (dropWhile isspace s)))"

text \<open>
  \<^verbatim>\<open>read_password(file_path)\<close>. The file system is a function from a path to the
  content of the file, or to the text of the exception that opening or reading it raises.
\<close>

definition read_password ::
  "(string \<Rightarrow> string + string) \<Rightarrow> string option \<Rightarrow> string option \<times> effect list" where
  "read_password fs file_path =
     (case file_path of
        None \<Rightarrow> (None, [])
      | Some p \<Rightarrow>
          if p = [] then (None, [])
          else (case fs p of
                  Inr content \<Rightarrow> (Some (strip content), [])
                | Inl e \<Rightarrow> (None, [Stderr (''[args] failed reading password file: '' @ e)])))"

text \<open>
  \<^verbatim>\<open>main\<close>, after \<^verbatim>\<open>parse_args\<close>. The last argument is the outcome of the call of
  \<^verbatim>\<open>bridge_loop\<close>: the text of the exception that it raises, if it raises one.
\<close>

definition main :: "cli_args \<Rightarrow> (string \<Rightarrow> string + string) \<Rightarrow> string option \<Rightarrow> effect list" where
  "main args fs bridge_raises =
     (case read_password fs (arg_mqtt_pass_file args) of
        (mqtt_password, out) \<Rightarrow>
          out @
          [Bridge_loop (arg_mav args)
             \<lparr>host = arg_mqtt_host args, port = arg_mqtt_port args,
              username = arg_mqtt_user args, password = mqtt_password,
              tls_ca = arg_tls_ca args, tls_cert = arg_tls_cert args,
              tls_key = arg_tls_key args\<rparr>
             (arg_topic args) (arg_rate args) (arg_queue_size args)] @
          (case bridge_raises of
             None \<Rightarrow> []
           | Some e \<Rightarrow> [Stderr (''[main] fatal error: '' @ e), Sys_exit 1]))"

section \<open>Notions used in the statements\<close>

text \<open>
  The number that a Python value denotes as a float: that of a float, and of an int in the
  range of a double.
\<close>

definition as_real :: "pyval \<Rightarrow> real option" where
  "as_real v =
     (case v of PInt i \<Rightarrow> if float_overflows i then None else Some (real_of_int i)
      | PFloat x \<Rightarrow> Some x | PNone \<Rightarrow> None | PStr s \<Rightarrow> None)"

text \<open>
  The raw number in an attribute of a message: none when the attribute is missing or does
  not denote a float.
\<close>

definition raw :: "mav_msg \<Rightarrow> string \<Rightarrow> real option" where
  "raw msg name = (case attrs msg name of None \<Rightarrow> None | Some v \<Rightarrow> as_real v)"

text \<open>
  The optional fields of each message type, as pairs of the key in the record and the
  attribute of the message it is read from with \<^verbatim>\<open>getattr(msg, name, None)\<close>.
\<close>

definition optional_fields :: "string \<Rightarrow> (string \<times> string) list" where
  "optional_fields mt =
     (if mt = ''GLOBAL_POSITION_INT''
      then [(''relative_alt'', ''relative_alt''), (''vx'', ''vx''), (''vy'', ''vy''),
            (''vz'', ''vz''), (''hdg'', ''hdg'')]
      else if mt = ''VFR_HUD''
      then [(''velocity'', ''vel''), (''alt'', ''alt''), (''airspeed'', ''airspeed''),
            (''groundspeed'', ''groundspeed''), (''throttle'', ''throttle'')]
      else if mt = ''GPS_RAW_INT''
      then [(''eph'', ''eph''), (''epv'', ''epv'')]
      else [])"

definition position_example :: mav_msg where
  "position_example = \<lparr>get_type = ''GLOBAL_POSITION_INT'',
     attrs = [''lat'' \<mapsto> PInt 473397000, ''lon'' \<mapsto> PInt 85550500,
              ''alt'' \<mapsto> PInt 500000, ''relative_alt'' \<mapsto> PInt 10000]\<rparr>"

text \<open>A \<^verbatim>\<open>VFR_HUD\<close> message whose \<open>vel\<close> is \<^verbatim>\<open>None\<close> and that has no \<open>airspeed\<close>.\<close>

definition vfr_example :: mav_msg where
  "vfr_example = \<lparr>get_type = ''VFR_HUD'',
     attrs = [''vel'' \<mapsto> PNone, ''alt'' \<mapsto> PFloat 12.5, ''groundspeed'' \<mapsto> PFloat 3,
              ''throttle'' \<mapsto> PInt 40]\<rparr>"

text \<open>
  The three message types of \<^verbatim>\<open>build_telemetry_from_msg\<close>, and what makes the
  extraction of a scaled field fail: a required field (\<^verbatim>\<open>msg.name / d\<close>) that is
  missing, \<^verbatim>\<open>None\<close> or does not denote a float; an optional scaled field that is
  there, is not \<^verbatim>\<open>None\<close> and does not denote a float.
\<close>

definition recognized :: "string \<Rightarrow> bool" where
  "recognized mt = (mt \<in> set [''GLOBAL_POSITION_INT'', ''VFR_HUD'', ''GPS_RAW_INT''])"

definition required_fails :: "mav_msg \<Rightarrow> string \<Rightarrow> bool" where
  "required_fails msg name = (raw msg name = None)"

definition optional_fails :: "mav_msg \<Rightarrow> string \<Rightarrow> bool" where
  "optional_fails msg name =
     (case attrs msg name of None \<Rightarrow> False | Some v \<Rightarrow> v \<noteq> PNone \<and> as_real v = None)"

definition extraction_fails :: "mav_msg \<Rightarrow> bool" where
  "extraction_fails msg =
     (if get_type msg = ''GLOBAL_POSITION_INT''
      then required_fails msg ''lat'' \<or> required_fails msg ''lon'' \<or> required_fails msg ''alt''
           \<or> optional_fails msg ''relative_alt'' \<or> optional_fails msg ''hdg''
      else if get_type msg = ''GPS_RAW_INT''
      then required_fails msg ''lat'' \<or> required_fails msg ''lon'' \<or> required_fails msg ''alt''
      else False)"

definition mandatory_keys :: "string \<Rightarrow> string list" where
  "mandatory_keys mt =
     (if mt = ''GLOBAL_POSITION_INT'' \<or> mt = ''GPS_RAW_INT''
      then [''seq'', ''timestamp'', ''lat'', ''lon'', ''alt'']
      else [''seq'', ''timestamp''])"

text \<open>
  The fields that are copied from the message as they are, as pairs of the key in the
  record and the attribute of the message.
\<close>

definition copied_fields :: "string \<Rightarrow> (string \<times> string) list" where
  "copied_fields mt =
     (if mt = ''GLOBAL_POSITION_INT''
      then [(''vx'', ''vx''), (''vy'', ''vy''), (''vz'', ''vz'')]
      else if mt = ''VFR_HUD''
      then [(''velocity'', ''vel''), (''alt'', ''alt''), (''airspeed'', ''airspeed''),
            (''groundspeed'', ''groundspeed''), (''throttle'', ''throttle'')]
      else if mt = ''GPS_RAW_INT''
      then [(''eph'', ''eph''), (''epv'', ''epv'')]
      else [])"

text \<open>
  The failure of the specification's sentence, "malformed or type-mismatched raw value":
  the extraction of a scaled field fails, or the value of a copied field is neither
  \<^verbatim>\<open>None\<close> nor a number.
\<close>

definition type_mismatched :: "pyval \<Rightarrow> bool" where
  "type_mismatched v = (case v of PStr s \<Rightarrow> True | _ \<Rightarrow> False)"

definition malformed_raw_value :: "mav_msg \<Rightarrow> bool" where
  "malformed_raw_value msg =
     (extraction_fails msg \<or>
      list_ex (\<lambda>(k, a). case attrs msg a of None \<Rightarrow> False | Some v \<Rightarrow> type_mismatched v)
        (copied_fields (get_type msg)))"

text \<open>
  A position message whose heading is a string, and one whose latitude is an int beyond
  the range of a double.
\<close>

definition huge_position :: mav_msg where
  "huge_position = \<lparr>get_type = ''GLOBAL_POSITION_INT'',
     attrs = [''lat'' \<mapsto> PInt (10 ^ 400), ''lon'' \<mapsto> PInt 85550500,
              ''alt'' \<mapsto> PInt 500000]\<rparr>"

definition bad_position :: mav_msg where
  "bad_position = \<lparr>get_type = ''GLOBAL_POSITION_INT'',
     attrs = [''lat'' \<mapsto> PInt 473397000, ''lon'' \<mapsto> PInt 85550500,
              ''alt'' \<mapsto> PInt 500000, ''hdg'' \<mapsto> PStr ''north'']\<rparr>"

text \<open>
  The last \<open>n\<close> items of a list; the events of a run in which the reader observes a
  message; the results of \<^verbatim>\<open>recv_match\<close> that carry a message the normalizer accepts;
  the \<open>seq\<close> of a record.
\<close>

definition keep_last :: "nat \<Rightarrow> 'a list \<Rightarrow> 'a list" where
  "keep_last n xs = drop (length xs - n) xs"

definition observed :: "bridge_event \<Rightarrow> bool" where
  "observed ev = (case ev of Reader (Recv_msg msg now) \<Rightarrow> True | _ \<Rightarrow> False)"

definition accepted :: "recv_result \<Rightarrow> bool" where
  "accepted r =
     (case r of Recv_msg msg now \<Rightarrow> recognized (get_type msg) \<and> \<not> extraction_fails msg
      | _ \<Rightarrow> False)"

definition seq_of :: "telemetry \<Rightarrow> pyval option" where
  "seq_of t = t ''seq''"

text \<open>A run in which the reader observes one message, which the normalizer rejects.\<close>

definition mixed_run :: "bridge_event list" where
  "mixed_run = [Reader Recv_none, Reader (Recv_msg bad_position 1700000000), Publisher 1700000001,
                Reader Recv_raises]"

text \<open>250 position messages, one after the other.\<close>

definition burst :: "recv_result list" where
  "burst = replicate 250 (Recv_msg position_example 1700000000)"

text \<open>
  A horizontal velocity component of a record in centimetres per second: 0 when the key
  is missing, none when the value is not a number.
\<close>

definition cm_per_s :: "telemetry \<Rightarrow> string \<Rightarrow> real option" where
  "cm_per_s t key = (case t key of None \<Rightarrow> Some 0 | Some v \<Rightarrow> as_real v)"

text \<open>
  A position message whose \<open>vx\<close> is a string and the record that
  \<^verbatim>\<open>build_telemetry_from_msg\<close> makes of it; a position message with all three
  velocity components and a heading, and a record with them.
\<close>

definition string_velocity :: mav_msg where
  "string_velocity = \<lparr>get_type = ''GLOBAL_POSITION_INT'',
     attrs = [''lat'' \<mapsto> PInt 473397000, ''lon'' \<mapsto> PInt 85550500,
              ''alt'' \<mapsto> PInt 500000, ''vx'' \<mapsto> PStr ''fast'', ''vy'' \<mapsto> PInt 100]\<rparr>"

definition string_velocity_record :: telemetry where
  "string_velocity_record =
     [''seq'' \<mapsto> PInt 1, ''timestamp'' \<mapsto> PFloat 1700000000,
      ''lat'' \<mapsto> PFloat 47.3397, ''lon'' \<mapsto> PFloat 8.55505, ''alt'' \<mapsto> PFloat 500,
      ''vx'' \<mapsto> PStr ''fast'', ''vy'' \<mapsto> PInt 100]"

definition moving_position :: mav_msg where
  "moving_position = \<lparr>get_type = ''GLOBAL_POSITION_INT'',
     attrs = [''lat'' \<mapsto> PInt 473397000, ''lon'' \<mapsto> PInt 85550500,
              ''alt'' \<mapsto> PInt 500000, ''vx'' \<mapsto> PInt 300, ''vy'' \<mapsto> PInt 400,
              ''vz'' \<mapsto> PInt (- 50), ''hdg'' \<mapsto> PInt 9000]\<rparr>"

definition moving_record :: telemetry where
  "moving_record =
     [''seq'' \<mapsto> PInt 1, ''timestamp'' \<mapsto> PFloat 1700000000,
      ''lat'' \<mapsto> PFloat 47.3397, ''lon'' \<mapsto> PFloat 8.55505, ''alt'' \<mapsto> PFloat 500,
      ''vx'' \<mapsto> PInt 300, ''vy'' \<mapsto> PInt 400, ''vz'' \<mapsto> PInt (- 50), ''hdg'' \<mapsto> PFloat 90]"

text \<open>
  The times of the publishes of a state, oldest first, and what it means for them to be
  spaced by at least \<open>d\<close> seconds: each is at least \<open>d\<close> after the one before it.
\<close>

definition publish_times :: "bridge_state \<Rightarrow> real list" where
  "publish_times st = map fst (published st)"

definition spaced :: "real \<Rightarrow> real list \<Rightarrow> bool" where
  "spaced d ts = successively (\<lambda>a b. d \<le> b - a) ts"

text \<open>
  What every run keeps true: the publishes are spaced, and \<^verbatim>\<open>last_pub\<close> is the time
  of the last one.
\<close>

definition spacing_inv :: "real \<Rightarrow> bridge_state \<Rightarrow> bool" where
  "spacing_inv d st =
     (spaced d (publish_times st)
      \<and> (published st \<noteq> [] \<longrightarrow> fst (last (published st)) = last_pub st))"

text \<open>
  Two runs. In the first, two records are taken from the queue ten seconds apart; in the
  second, at 0.3, 0.4 and 0.9 seconds after the messages.
\<close>

definition slow_run :: "bridge_event list" where
  "slow_run = [Reader (Recv_msg position_example 1700000000),
               Reader (Recv_msg position_example 1700000001),
               Publisher 1700000002, Publisher 1700000012]"

definition fast_run :: "bridge_event list" where
  "fast_run = [Reader (Recv_msg position_example 1700000000),
               Reader (Recv_msg position_example 1700000000),
               Reader (Recv_msg position_example 1700000000),
               Publisher 1700000000.3, Publisher 1700000000.4, Publisher 1700000000.9]"

text \<open>
  Whether \<^verbatim>\<open>main\<close> called \<^verbatim>\<open>bridge_loop\<close>, that is, whether the pipeline was
  started, before any \<^verbatim>\<open>sys.exit\<close>.
\<close>

fun pipeline_started :: "effect list \<Rightarrow> bool" where
  "pipeline_started [] = False"
| "pipeline_started (Bridge_loop m c t r q # es) = True"
| "pipeline_started (Sys_exit n # es) = False"
| "pipeline_started (Stderr s # es) = pipeline_started es"

text \<open>
  The arguments of the second usage example of the script, and a file system in which no
  file can be opened.
\<close>

definition example_args :: cli_args where
  "example_args = \<lparr>arg_mav = ''udp:127.0.0.1:14550'', arg_mqtt_host = ''cloud.example.com'',
     arg_mqtt_port = 1883, arg_mqtt_user = Some ''drone'',
     arg_mqtt_pass_file = Some ''./secrets/mqtt_pass.txt'', arg_tls_ca = None,
     arg_tls_cert = None, arg_tls_key = None, arg_topic = ''drone/telemetry'', arg_rate = 5,
     arg_queue_size = 200\<rparr>"

definition no_files :: "string \<Rightarrow> string + string" where
  "no_files p = Inl ''[Errno 2] No such file or directory''"

section \<open>Properties of the normalizer\<close>

subsection \<open>Conversion to float\<close>

lemma int64_converts: "\<bar>i\<bar> < 2 ^ 64 \<Longrightarrow> \<not> float_overflows i"
proof -
  assume a: "\<bar>i\<bar> < 2 ^ 64"
  have "(2::int) ^ 64 \<le> 2 ^ 1024 - 2 ^ 970" by simp
  with a show ?thesis unfolding float_overflows_def by linarith
qed

lemma as_real_PInt: "\<bar>i\<bar> < 2 ^ 64 \<Longrightarrow> as_real (PInt i) = Some (real_of_int i)"
  by (simp add: as_real_def int64_converts)

lemma truediv_PInt: "\<bar>i\<bar> < 2 ^ 64 \<Longrightarrow> truediv (PInt i) d = Inr (real_of_int i / d)"
  by (simp add: truediv_def int64_converts)

subsection \<open>When the field expressions succeed\<close>

lemma truediv_Inr: "truediv v d = Inr y \<longleftrightarrow> (\<exists>x. as_real v = Some x \<and> y = x / d)"
  by (cases v) (auto simp: truediv_def int64_converts as_real_def)

lemma truediv_Inl: "(\<exists>e. truediv v d = Inl e) \<longleftrightarrow> as_real v = None"
  by (cases v) (auto simp: truediv_def as_real_def)

lemma ebind_Inr: "ebind r f = Inr b \<longleftrightarrow> (\<exists>a. r = Inr a \<and> f a = Inr b)"
  by (cases r) (auto simp: ebind_def)

lemma scaled_Inr: "scaled msg name d = Inr y \<longleftrightarrow> (\<exists>x. raw msg name = Some x \<and> y = PFloat (x / d))"
  by (auto simp: scaled_def getattr_def raw_def ebind_Inr truediv_Inr split: option.splits)

lemma scaled_or_none_Inr:
  "scaled_or_none msg name d = Inr y \<longleftrightarrow>
     (case attrs msg name of None \<Rightarrow> y = PNone
      | Some v \<Rightarrow> if v = PNone then y = PNone else (\<exists>x. as_real v = Some x \<and> y = PFloat (x / d)))"
  by (auto simp: scaled_or_none_def getattr_default_def ebind_Inr truediv_Inr split: option.splits)

lemma position_fields_Inr:
  "position_fields msg = Inr u \<longleftrightarrow>
    (\<exists>lat lon alt rel hdg. scaled msg ''lat'' 10000000 = Inr lat \<and> scaled msg ''lon'' 10000000 = Inr lon
      \<and> scaled msg ''alt'' 1000 = Inr alt \<and> scaled_or_none msg ''relative_alt'' 1000 = Inr rel
      \<and> scaled_or_none msg ''hdg'' 100 = Inr hdg
      \<and> u = [''lat'' \<mapsto> lat, ''lon'' \<mapsto> lon, ''alt'' \<mapsto> alt,
            ''relative_alt'' \<mapsto> rel,
            ''vx'' \<mapsto> getattr_default msg ''vx'' PNone,
            ''vy'' \<mapsto> getattr_default msg ''vy'' PNone,
            ''vz'' \<mapsto> getattr_default msg ''vz'' PNone,
            ''hdg'' \<mapsto> hdg])"
  unfolding position_fields_def ebind_Inr by auto

lemma update_or_none_Some:
  "update_or_none t r = Some t' \<longleftrightarrow> (\<exists>u. r = Inr u \<and> t' = remove_none (t ++ u))"
  by (cases r) (auto simp: update_or_none_def)

text \<open>
  C1. For every \<^verbatim>\<open>GLOBAL_POSITION_INT\<close> message that \<^verbatim>\<open>build_telemetry_from_msg\<close>
  accepts, \<open>lat\<close> and \<open>lon\<close> of the record are the raw fields divided by 1e7 and
  \<open>alt\<close> is the raw field divided by 1000; \<open>relative_alt\<close> is the raw field divided
  by 1000 and \<open>hdg\<close> the raw field divided by 100, whenever the message has the
  attribute and it is not \<^verbatim>\<open>None\<close>.
\<close>

theorem position_scaling:
  assumes "get_type msg = ''GLOBAL_POSITION_INT''"
      and "build_telemetry_from_msg msg n now = Some t"
  shows "(\<exists>x. raw msg ''lat'' = Some x \<and> t ''lat'' = Some (PFloat (x / 10000000)))
       \<and> (\<exists>x. raw msg ''lon'' = Some x \<and> t ''lon'' = Some (PFloat (x / 10000000)))
       \<and> (\<exists>x. raw msg ''alt'' = Some x \<and> t ''alt'' = Some (PFloat (x / 1000)))
       \<and> (\<forall>v. attrs msg ''relative_alt'' = Some v \<and> v \<noteq> PNone \<longrightarrow>
            (\<exists>x. as_real v = Some x \<and> t ''relative_alt'' = Some (PFloat (x / 1000))))
       \<and> (\<forall>v. attrs msg ''hdg'' = Some v \<and> v \<noteq> PNone \<longrightarrow>
            (\<exists>x. as_real v = Some x \<and> t ''hdg'' = Some (PFloat (x / 100))))"
proof -
  from assms obtain u where u: "position_fields msg = Inr u"
    and t: "t = remove_none ([''seq'' \<mapsto> PInt n, ''timestamp'' \<mapsto> PFloat now] ++ u)"
    by (auto simp: build_telemetry_from_msg_def update_or_none_Some)
  from u obtain lat lon alt rel hdg where
    f: "scaled msg ''lat'' 10000000 = Inr lat" "scaled msg ''lon'' 10000000 = Inr lon"
       "scaled msg ''alt'' 1000 = Inr alt" "scaled_or_none msg ''relative_alt'' 1000 = Inr rel"
       "scaled_or_none msg ''hdg'' 100 = Inr hdg"
    and ueq: "u = [''lat'' \<mapsto> lat, ''lon'' \<mapsto> lon, ''alt'' \<mapsto> alt,
            ''relative_alt'' \<mapsto> rel,
            ''vx'' \<mapsto> getattr_default msg ''vx'' PNone,
            ''vy'' \<mapsto> getattr_default msg ''vy'' PNone,
            ''vz'' \<mapsto> getattr_default msg ''vz'' PNone,
            ''hdg'' \<mapsto> hdg]"
    unfolding position_fields_Inr by blast
  have 1: "\<exists>x. raw msg ''lat'' = Some x \<and> t ''lat'' = Some (PFloat (x / 10000000))"
    using f(1) by (auto simp: scaled_Inr t ueq remove_none_def)
  have 2: "\<exists>x. raw msg ''lon'' = Some x \<and> t ''lon'' = Some (PFloat (x / 10000000))"
    using f(2) by (auto simp: scaled_Inr t ueq remove_none_def)
  have 3: "\<exists>x. raw msg ''alt'' = Some x \<and> t ''alt'' = Some (PFloat (x / 1000))"
    using f(3) by (auto simp: scaled_Inr t ueq remove_none_def)
  have 4: "\<forall>v. attrs msg ''relative_alt'' = Some v \<and> v \<noteq> PNone \<longrightarrow>
            (\<exists>x. as_real v = Some x \<and> t ''relative_alt'' = Some (PFloat (x / 1000)))"
    using f(4) by (auto simp: scaled_or_none_Inr t ueq remove_none_def split: if_splits)
  have 5: "\<forall>v. attrs msg ''hdg'' = Some v \<and> v \<noteq> PNone \<longrightarrow>
            (\<exists>x. as_real v = Some x \<and> t ''hdg'' = Some (PFloat (x / 100)))"
    using f(5) by (auto simp: scaled_or_none_Inr t ueq remove_none_def split: if_splits)
  from 1 2 3 4 5 show ?thesis by blast
qed

lemma position_example_accepted:
  "\<exists>t. build_telemetry_from_msg position_example 1 1700000000 = Some t"
  by (simp add: build_telemetry_from_msg_def position_example_def update_or_none_def
      position_fields_def scaled_def scaled_or_none_def getattr_def getattr_default_def
      ebind_def truediv_def int64_converts)

text \<open>
  The scenario of the specification: raw \<open>lat = 473397000\<close>, \<open>lon = 85550500\<close>,
  \<open>alt = 500000\<close>, \<open>relative_alt = 10000\<close> give \<open>47.3397\<close>, \<open>8.55505\<close>,
  \<open>500.0\<close> and \<open>10.0\<close>.
\<close>

theorem position_scaling_witness:
  "get_type position_example = ''GLOBAL_POSITION_INT'' \<and>
   (\<exists>t. build_telemetry_from_msg position_example 1 1700000000 = Some t \<and>
        t ''lat'' = Some (PFloat 47.3397) \<and> t ''lon'' = Some (PFloat 8.55505) \<and>
        t ''alt'' = Some (PFloat 500) \<and> t ''relative_alt'' = Some (PFloat 10))"
proof -
  have ty: "get_type position_example = ''GLOBAL_POSITION_INT''"
    by (simp add: position_example_def)
  obtain t where t: "build_telemetry_from_msg position_example 1 1700000000 = Some t"
    using position_example_accepted by blast
  have "t ''lat'' = Some (PFloat 47.3397) \<and> t ''lon'' = Some (PFloat 8.55505) \<and>
        t ''alt'' = Some (PFloat 500) \<and> t ''relative_alt'' = Some (PFloat 10)"
    using position_scaling [OF ty t]
    by (simp add: raw_def as_real_def int64_converts position_example_def)
  with ty t show ?thesis by blast
qed

subsection \<open>Unknown values are left out\<close>

lemma remove_none_no_None: "remove_none t k \<noteq> Some PNone"
  by (simp add: remove_none_def split: option.splits)

lemma build_no_None: "build_telemetry_from_msg msg n now = Some t \<Longrightarrow> t k \<noteq> Some PNone"
  by (auto simp: build_telemetry_from_msg_def Let_def update_or_none_Some remove_none_no_None
           split: if_splits)

lemma scaled_or_none_PNone:
  "getattr_default msg name PNone = PNone \<Longrightarrow> scaled_or_none msg name d = Inr PNone"
  by (simp add: scaled_or_none_def)

lemma gps_raw_fields_Inr:
  "gps_raw_fields msg = Inr u \<longleftrightarrow>
    (\<exists>lat lon alt. scaled msg ''lat'' 10000000 = Inr lat \<and> scaled msg ''lon'' 10000000 = Inr lon
      \<and> scaled msg ''alt'' 1000 = Inr alt
      \<and> u = [''lat'' \<mapsto> lat, ''lon'' \<mapsto> lon, ''alt'' \<mapsto> alt,
            ''eph'' \<mapsto> getattr_default msg ''eph'' PNone,
            ''epv'' \<mapsto> getattr_default msg ''epv'' PNone])"
  unfolding gps_raw_fields_def ebind_Inr by auto

lemma position_optional:
  assumes "position_fields msg = Inr u"
      and "(k, a) \<in> set (optional_fields ''GLOBAL_POSITION_INT'')"
      and "getattr_default msg a PNone = PNone"
  shows "remove_none (t ++ u) k = None"
  using assms unfolding position_fields_Inr
  by (auto simp: optional_fields_def remove_none_def scaled_or_none_PNone)

lemma vfr_optional:
  assumes "vfr_hud_fields msg = Inr u"
      and "(k, a) \<in> set (optional_fields ''VFR_HUD'')"
      and "getattr_default msg a PNone = PNone"
  shows "remove_none (t ++ u) k = None"
  using assms
  by (auto simp: optional_fields_def remove_none_def vfr_hud_fields_def)

lemma gps_optional:
  assumes "gps_raw_fields msg = Inr u"
      and "(k, a) \<in> set (optional_fields ''GPS_RAW_INT'')"
      and "getattr_default msg a PNone = PNone"
  shows "remove_none (t ++ u) k = None"
  using assms unfolding gps_raw_fields_Inr
  by (auto simp: optional_fields_def remove_none_def)

lemma build_optional:
  assumes "build_telemetry_from_msg msg n now = Some t"
      and "(k, a) \<in> set (optional_fields (get_type msg))"
      and "getattr_default msg a PNone = PNone"
  shows "t k = None"
proof -
  consider (pos) "get_type msg = ''GLOBAL_POSITION_INT''" | (vfr) "get_type msg = ''VFR_HUD''"
    | (gps) "get_type msg = ''GPS_RAW_INT''"
    using assms(1) by (auto simp: build_telemetry_from_msg_def Let_def split: if_splits)
  then show ?thesis
  proof cases
    case pos
    with assms show ?thesis
      by (auto simp: build_telemetry_from_msg_def update_or_none_Some intro: position_optional)
  next
    case vfr
    with assms show ?thesis
      by (auto simp: build_telemetry_from_msg_def update_or_none_Some intro: vfr_optional)
  next
    case gps
    with assms show ?thesis
      by (auto simp: build_telemetry_from_msg_def update_or_none_Some intro: gps_optional)
  qed
qed

lemma velocity_fallback_no_None:
  assumes "\<forall>k. t k \<noteq> Some PNone"
  shows "velocity_fallback t k \<noteq> Some PNone"
proof (cases "velocity_fallback t = t")
  case True
  with assms show ?thesis by simp
next
  case False
  then obtain vx vy where
    "velocity_fallback t = (t(''velocity'' \<mapsto> PFloat ((vx * vx + vy * vy) powr (1 / 2))))
                          (''vx'' := None, ''vy'' := None)"
    by (auto simp: velocity_fallback_def ebind_def split: if_splits sum.splits)
  with assms show ?thesis by simp
qed

text \<open>
  C8. No key of a record that \<^verbatim>\<open>build_telemetry_from_msg\<close> returns is bound to
  \<^verbatim>\<open>None\<close>, nor is any key of the record that the reader makes of it, and every
  optional field whose value in the message is unknown (the attribute is missing or
  \<^verbatim>\<open>None\<close>) is not a key of the record.
\<close>

theorem unknown_fields_omitted:
  assumes "build_telemetry_from_msg msg n now = Some t"
  shows "(\<forall>k. t k \<noteq> Some PNone)
       \<and> (\<forall>k. velocity_fallback t k \<noteq> Some PNone)
       \<and> (\<forall>(k, a) \<in> set (optional_fields (get_type msg)).
             getattr_default msg a PNone = PNone \<longrightarrow> k \<notin> dom t)"
proof -
  have 1: "\<forall>k. t k \<noteq> Some PNone"
    using build_no_None [OF assms] by simp
  then have 2: "\<forall>k. velocity_fallback t k \<noteq> Some PNone"
    using velocity_fallback_no_None [of t] by simp
  from 1 2 build_optional [OF assms] show ?thesis by (auto simp: dom_def)
qed

theorem unknown_fields_omitted_witness:
  "\<exists>t. build_telemetry_from_msg vfr_example 7 1700000000 = Some t \<and>
        (\<forall>k. t k \<noteq> Some PNone) \<and> (\<forall>k. velocity_fallback t k \<noteq> Some PNone) \<and>
        ''velocity'' \<notin> dom t \<and> ''airspeed'' \<notin> dom t \<and>
        t ''alt'' = Some (PFloat 12.5)"
proof -
  obtain t where t: "build_telemetry_from_msg vfr_example 7 1700000000 = Some t"
    by (simp add: build_telemetry_from_msg_def vfr_example_def update_or_none_def
        vfr_hud_fields_def Let_def)
  have alt: "t ''alt'' = Some (PFloat 12.5)"
    using t by (auto simp: build_telemetry_from_msg_def vfr_example_def update_or_none_def
        vfr_hud_fields_def getattr_default_def remove_none_def Let_def)
  have "(\<forall>k. t k \<noteq> Some PNone) \<and> (\<forall>k. velocity_fallback t k \<noteq> Some PNone)
        \<and> ''velocity'' \<notin> dom t \<and> ''airspeed'' \<notin> dom t"
    using unknown_fields_omitted [OF t]
    by (simp add: vfr_example_def optional_fields_def getattr_default_def)
  with t alt show ?thesis by blast
qed

subsection \<open>When no record is returned\<close>

lemma scaled_ok: "(\<exists>y. scaled msg name d = Inr y) \<longleftrightarrow> \<not> required_fails msg name"
  by (auto simp: scaled_Inr required_fails_def)

lemma scaled_or_none_ok: "(\<exists>y. scaled_or_none msg name d = Inr y) \<longleftrightarrow> \<not> optional_fails msg name"
  by (auto simp: scaled_or_none_Inr optional_fails_def split: option.splits)

lemma position_fields_ok:
  "(\<exists>u. position_fields msg = Inr u) \<longleftrightarrow>
     \<not> (required_fails msg ''lat'' \<or> required_fails msg ''lon'' \<or> required_fails msg ''alt''
           \<or> optional_fails msg ''relative_alt'' \<or> optional_fails msg ''hdg'')"
proof -
  have "(\<exists>u. position_fields msg = Inr u) \<longleftrightarrow>
     (\<exists>y. scaled msg ''lat'' 10000000 = Inr y) \<and> (\<exists>y. scaled msg ''lon'' 10000000 = Inr y) \<and>
     (\<exists>y. scaled msg ''alt'' 1000 = Inr y) \<and> (\<exists>y. scaled_or_none msg ''relative_alt'' 1000 = Inr y) \<and>
     (\<exists>y. scaled_or_none msg ''hdg'' 100 = Inr y)"
    unfolding position_fields_Inr by blast
  then show ?thesis unfolding scaled_ok scaled_or_none_ok by blast
qed

lemma gps_raw_fields_ok:
  "(\<exists>u. gps_raw_fields msg = Inr u) \<longleftrightarrow>
     \<not> (required_fails msg ''lat'' \<or> required_fails msg ''lon'' \<or> required_fails msg ''alt'')"
proof -
  have "(\<exists>u. gps_raw_fields msg = Inr u) \<longleftrightarrow>
     (\<exists>y. scaled msg ''lat'' 10000000 = Inr y) \<and> (\<exists>y. scaled msg ''lon'' 10000000 = Inr y) \<and>
     (\<exists>y. scaled msg ''alt'' 1000 = Inr y)"
    unfolding gps_raw_fields_Inr by blast
  then show ?thesis unfolding scaled_ok by blast
qed

lemma update_or_none_None: "update_or_none t r = None \<longleftrightarrow> \<not> (\<exists>u. r = Inr u)"
  by (cases r) (auto simp: update_or_none_def)

lemma build_None_iff:
  "build_telemetry_from_msg msg n now = None \<longleftrightarrow>
     \<not> recognized (get_type msg) \<or> extraction_fails msg"
  unfolding build_telemetry_from_msg_def Let_def recognized_def extraction_fails_def
  by (simp add: update_or_none_None position_fields_ok gps_raw_fields_ok vfr_hud_fields_def)

lemma build_mandatory:
  assumes "build_telemetry_from_msg msg n now = Some t"
  shows "set (mandatory_keys (get_type msg)) \<subseteq> dom t"
proof -
  consider (pos) "get_type msg = ''GLOBAL_POSITION_INT''" | (vfr) "get_type msg = ''VFR_HUD''"
    | (gps) "get_type msg = ''GPS_RAW_INT''"
    using assms by (auto simp: build_telemetry_from_msg_def Let_def split: if_splits)
  then show ?thesis
  proof cases
    case pos
    with assms show ?thesis
      by (auto simp: build_telemetry_from_msg_def update_or_none_Some position_fields_Inr
          scaled_Inr mandatory_keys_def remove_none_def)
  next
    case vfr
    with assms show ?thesis
      by (auto simp: build_telemetry_from_msg_def update_or_none_Some mandatory_keys_def
          remove_none_def vfr_hud_fields_def)
  next
    case gps
    with assms show ?thesis
      by (auto simp: build_telemetry_from_msg_def update_or_none_Some gps_raw_fields_Inr
          scaled_Inr mandatory_keys_def remove_none_def)
  qed
qed

lemma reader_iter_rejected:
  "build_telemetry_from_msg msg (seq st + 1) now = None \<Longrightarrow>
   out_queue (reader_iter qs st (Recv_msg msg now)) = out_queue st"
  by (simp add: reader_iter_def)

lemma position_copied:
  assumes "position_fields msg = Inr u"
      and "(k, a) \<in> set (copied_fields ''GLOBAL_POSITION_INT'')"
      and "attrs msg a = Some v" and "v \<noteq> PNone"
  shows "remove_none (t ++ u) k = Some v"
  using assms unfolding position_fields_Inr
  by (auto simp: copied_fields_def remove_none_def getattr_default_def)

lemma vfr_copied:
  assumes "vfr_hud_fields msg = Inr u"
      and "(k, a) \<in> set (copied_fields ''VFR_HUD'')"
      and "attrs msg a = Some v" and "v \<noteq> PNone"
  shows "remove_none (t ++ u) k = Some v"
  using assms
  by (auto simp: copied_fields_def remove_none_def vfr_hud_fields_def getattr_default_def)

lemma gps_copied:
  assumes "gps_raw_fields msg = Inr u"
      and "(k, a) \<in> set (copied_fields ''GPS_RAW_INT'')"
      and "attrs msg a = Some v" and "v \<noteq> PNone"
  shows "remove_none (t ++ u) k = Some v"
  using assms unfolding gps_raw_fields_Inr
  by (auto simp: copied_fields_def remove_none_def getattr_default_def)

lemma build_copied:
  assumes "build_telemetry_from_msg msg n now = Some t"
      and "(k, a) \<in> set (copied_fields (get_type msg))"
      and "attrs msg a = Some v" and "v \<noteq> PNone"
  shows "t k = Some v"
proof -
  consider (pos) "get_type msg = ''GLOBAL_POSITION_INT''" | (vfr) "get_type msg = ''VFR_HUD''"
    | (gps) "get_type msg = ''GPS_RAW_INT''"
    using assms(1) by (auto simp: build_telemetry_from_msg_def Let_def split: if_splits)
  then show ?thesis
  proof cases
    case pos
    with assms show ?thesis
      by (auto simp: build_telemetry_from_msg_def update_or_none_Some intro: position_copied)
  next
    case vfr
    with assms show ?thesis
      by (auto simp: build_telemetry_from_msg_def update_or_none_Some intro: vfr_copied)
  next
    case gps
    with assms show ?thesis
      by (auto simp: build_telemetry_from_msg_def update_or_none_Some intro: gps_copied)
  qed
qed

text \<open>
  C6, with the failures that the code has. \<^verbatim>\<open>build_telemetry_from_msg\<close> returns
  \<^verbatim>\<open>None\<close> exactly when the type of the message is not one of the three recognized
  types or the extraction of a scaled field fails: \<open>lat\<close>, \<open>lon\<close> or \<open>alt\<close> of a
  position or GPS message is missing, \<^verbatim>\<open>None\<close> or does not denote a float, or
  \<open>relative_alt\<close> or \<open>hdg\<close> of a position message is there, is not \<^verbatim>\<open>None\<close> and
  does not denote a float. A record that is returned holds \<open>seq\<close> and \<open>timestamp\<close>
  and, for the two position types, \<open>lat\<close>, \<open>lon\<close> and \<open>alt\<close>: it is never partially
  populated; and it holds the value of every copied field that is not \<^verbatim>\<open>None\<close>,
  whatever that value is. When no record is returned, the reader leaves the queue as it
  was.
\<close>

theorem normalize_absent_iff:
  "(build_telemetry_from_msg msg n now = None \<longleftrightarrow>
      \<not> recognized (get_type msg) \<or> extraction_fails msg)
   \<and> (\<forall>t. build_telemetry_from_msg msg n now = Some t \<longrightarrow>
          set (mandatory_keys (get_type msg)) \<subseteq> dom t
          \<and> (\<forall>(k, a) \<in> set (copied_fields (get_type msg)).
                \<forall>v. attrs msg a = Some v \<and> v \<noteq> PNone \<longrightarrow> t k = Some v))
   \<and> (\<not> recognized (get_type msg) \<or> extraction_fails msg \<longrightarrow>
          out_queue (reader_iter qs st (Recv_msg msg now)) = out_queue st)"
proof -
  have "\<forall>t. build_telemetry_from_msg msg n now = Some t \<longrightarrow>
          (\<forall>(k, a) \<in> set (copied_fields (get_type msg)).
                \<forall>v. attrs msg a = Some v \<and> v \<noteq> PNone \<longrightarrow> t k = Some v)"
    using build_copied [of msg n now] by blast
  with build_None_iff [of msg n now] build_None_iff [of msg "seq st + 1" now]
    build_mandatory [of msg n now] reader_iter_rejected [of msg st now qs]
  show ?thesis by blast
qed

lemma huge_position_fails: "extraction_fails huge_position"
proof -
  have "(2::int) ^ 1024 \<le> 10 ^ 400" by simp
  then have "float_overflows (10 ^ 400)" by (simp add: float_overflows_def)
  then show ?thesis
    by (simp add: extraction_fails_def huge_position_def required_fails_def raw_def as_real_def)
qed

theorem normalize_absent_iff_witness:
  "extraction_fails bad_position
   \<and> build_telemetry_from_msg bad_position 1 1700000000 = None
   \<and> out_queue (reader_iter 200 initial_state (Recv_msg bad_position 1700000000)) = []
   \<and> extraction_fails huge_position
   \<and> build_telemetry_from_msg huge_position 1 1700000000 = None
   \<and> \<not> extraction_fails string_velocity \<and> recognized (get_type string_velocity)
   \<and> (\<exists>t. build_telemetry_from_msg string_velocity 1 1700000000 = Some t \<and>
          {''seq'', ''timestamp'', ''lat'', ''lon'', ''alt''} \<subseteq> dom t \<and>
          t ''vx'' = Some (PStr ''fast'') \<and> t ''vy'' = Some (PInt 100))"
proof -
  have bad: "extraction_fails bad_position"
    by (simp add: extraction_fails_def bad_position_def optional_fails_def as_real_def)
  have good: "\<not> extraction_fails string_velocity" "recognized (get_type string_velocity)"
    by (simp_all add: extraction_fails_def string_velocity_def optional_fails_def
        required_fails_def raw_def as_real_def int64_converts recognized_def)
  note th = normalize_absent_iff [of bad_position 1 1700000000 200 initial_state]
  note th1 = normalize_absent_iff [of huge_position 1 1700000000 200 initial_state]
  note th2 = normalize_absent_iff [of string_velocity 1 1700000000 200 initial_state]
  have 1: "build_telemetry_from_msg bad_position 1 1700000000 = None"
    using th bad by blast
  have 2: "out_queue (reader_iter 200 initial_state (Recv_msg bad_position 1700000000)) = []"
    using th bad by (simp add: initial_state_def)
  have 3: "build_telemetry_from_msg huge_position 1 1700000000 = None"
    using th1 huge_position_fails by blast
  obtain t where t: "build_telemetry_from_msg string_velocity 1 1700000000 = Some t"
    using th2 good by blast
  have 4: "{''seq'', ''timestamp'', ''lat'', ''lon'', ''alt''} \<subseteq> dom t"
    using th2 t by (simp add: mandatory_keys_def string_velocity_def)
  have 5: "t ''vx'' = Some (PStr ''fast'') \<and> t ''vy'' = Some (PInt 100)"
    using th2 t by (simp add: copied_fields_def string_velocity_def)
  from bad good 1 2 3 huge_position_fails t 4 5 show ?thesis by blast
qed

lemma string_velocity_built:
  "build_telemetry_from_msg string_velocity 1 1700000000 = Some string_velocity_record"
  by (auto simp: build_telemetry_from_msg_def string_velocity_def string_velocity_record_def
      update_or_none_def position_fields_def scaled_def scaled_or_none_def getattr_def
      getattr_default_def ebind_def truediv_PInt remove_none_def fun_eq_iff map_add_def)

text \<open>
  A position message whose \<open>vx\<close> is a string has a type-mismatched raw value, and yet a
  record is returned for it, with the string in it.
\<close>

theorem type_mismatch_kept_counterexample:
  "recognized (get_type string_velocity)
   \<and> malformed_raw_value string_velocity
   \<and> build_telemetry_from_msg string_velocity 1 1700000000 = Some string_velocity_record
   \<and> string_velocity_record ''vx'' = Some (PStr ''fast'')"
  using string_velocity_built
  by (simp add: recognized_def malformed_raw_value_def copied_fields_def type_mismatched_def
      string_velocity_def string_velocity_record_def)

section \<open>Properties of the queue and of the reader\<close>

subsection \<open>Pushing on the bounded queue\<close>

lemma push_drop_oldest_unfold:
  "push_drop_oldest maxsize q x =
     (case put_nowait maxsize q x of
        Inr q' \<Rightarrow> q'
      | Inl e \<Rightarrow>
          (case get_nowait q of
             Inl e' \<Rightarrow> q
           | Inr (old, q') \<Rightarrow>
               (case put_nowait maxsize q' x of
                  Inl e' \<Rightarrow> q'
                | Inr q'' \<Rightarrow> q'')))"
  by (auto simp: push_drop_oldest_def push_with_gets_def split: sum.splits prod.splits)

lemma push_not_full:
  "\<not> (0 < N \<and> N \<le> int (length q)) \<Longrightarrow> push_drop_oldest N q x = q @ [x]"
  by (auto simp: push_drop_oldest_unfold put_nowait_def)

lemma push_full:
  assumes "0 < N" "int (length q) = N"
  shows "push_drop_oldest N q x = tl q @ [x] \<and> q = hd q # tl q"
proof -
  from assms obtain a r where q: "q = a # r" by (cases q) auto
  with assms have "push_drop_oldest N q x = tl q @ [x]"
    by (simp add: push_drop_oldest_unfold put_nowait_def get_nowait_def)
  with q show ?thesis by simp
qed

lemma push_length:
  assumes "0 < N" "int (length q) \<le> N"
  shows "int (length (push_drop_oldest N q x)) \<le> N"
proof (cases "int (length q) = N")
  case True
  with assms push_full [of N q x] show ?thesis by simp
next
  case False
  with assms push_not_full [of N q x] show ?thesis by simp
qed

lemma push_keep_last:
  assumes "0 < N" "int (length q) \<le> N"
  shows "push_drop_oldest N q x = keep_last (nat N) (q @ [x])"
proof (cases "int (length q) = N")
  case True
  then have "length q = nat N" by simp
  then have "keep_last (nat N) (q @ [x]) = tl q @ [x]"
    using assms(1) by (cases q) (simp_all add: keep_last_def)
  with push_full [OF assms(1) True, of x] show ?thesis by simp
next
  case False
  with assms have "length q < nat N" by simp
  then have "keep_last (nat N) (q @ [x]) = q @ [x]" by (simp add: keep_last_def)
  with False assms push_not_full [of N q x] show ?thesis by simp
qed

lemma keep_last_snoc: "0 < n \<Longrightarrow> keep_last n (keep_last n xs @ [x]) = keep_last n (xs @ [x])"
proof (cases "length xs \<le> n")
  case True
  then show ?thesis by (simp add: keep_last_def)
next
  case False
  assume "0 < n"
  with False have "Suc n - n = 1" "Suc (length xs) - n = Suc (length xs - n)"
    "length xs - (length xs - n) = n" by simp_all
  with False show ?thesis by (simp add: keep_last_def Suc_diff_le)
qed

lemma length_keep_last: "length (keep_last n xs) = min n (length xs)"
  by (auto simp: keep_last_def)

lemma keep_last_map: "keep_last n (map f xs) = map f (keep_last n xs)"
  by (simp add: keep_last_def drop_map)

subsection \<open>Iterations of the reader and runs of the bridge\<close>

lemma velocity_fallback_other:
  "k \<noteq> ''vx'' \<Longrightarrow> k \<noteq> ''vy'' \<Longrightarrow> k \<noteq> ''velocity'' \<Longrightarrow> velocity_fallback t k = t k"
  by (auto simp: velocity_fallback_def ebind_def split: sum.splits)

lemma build_seq: "build_telemetry_from_msg msg n now = Some t \<Longrightarrow> t ''seq'' = Some (PInt n)"
  by (auto simp: build_telemetry_from_msg_def Let_def update_or_none_Some position_fields_Inr
      gps_raw_fields_Inr vfr_hud_fields_def remove_none_def split: if_splits)

lemma reader_iter_seq: "seq (reader_iter N st (Recv_msg msg now)) = seq st + 1"
  by (simp add: reader_iter_def Let_def split: option.splits)

lemma reader_iter_seq_other:
  "seq (reader_iter N st Recv_none) = seq st" "seq (reader_iter N st Recv_raises) = seq st"
  by (simp_all add: reader_iter_def)

lemma publisher_iter_seq: "seq (publisher_iter R st now) = seq st"
  by (simp add: publisher_iter_def Let_def split: sum.splits prod.splits)

lemma bridge_step_seq:
  "seq (bridge_step R N st ev) = seq st + (if observed ev then 1 else 0)"
proof (cases ev)
  case (Reader r)
  then show ?thesis
    by (cases r) (simp_all add: bridge_step_def observed_def reader_iter_seq reader_iter_seq_other)
next
  case (Publisher now)
  then show ?thesis by (simp add: bridge_step_def observed_def publisher_iter_seq)
qed

lemma bridge_run_snoc:
  "bridge_run R N st (evs @ [ev]) = bridge_step R N (bridge_run R N st evs) ev"
  by (simp add: bridge_run_def)

lemma bridge_run_seq:
  "seq (bridge_run R N st evs) = seq st + int (length (filter observed evs))"
proof (induction evs rule: rev_induct)
  case Nil
  show ?case by (simp add: bridge_run_def)
next
  case (snoc ev evs)
  then show ?case by (simp add: bridge_run_snoc bridge_step_seq)
qed

lemma reader_iter_accepted:
  assumes "build_telemetry_from_msg msg (seq st + 1) now = Some t"
  shows "out_queue (reader_iter N st (Recv_msg msg now)) =
           push_drop_oldest N (out_queue st) (velocity_fallback t)
       \<and> seq_of (velocity_fallback t) = Some (PInt (seq st + 1))"
  using assms build_seq [OF assms]
  by (simp add: reader_iter_def seq_of_def velocity_fallback_other)

lemma reader_iter_bounded:
  assumes "0 < N" "int (length (out_queue st)) \<le> N"
  shows "int (length (out_queue (reader_iter N st r))) \<le> N"
proof (cases r)
  case (Recv_msg msg now)
  show ?thesis
  proof (cases "build_telemetry_from_msg msg (seq st + 1) now")
    case None
    with assms Recv_msg show ?thesis by (simp add: reader_iter_def)
  next
    case (Some t)
    with assms Recv_msg push_length [of N "out_queue st" "velocity_fallback t"]
    show ?thesis by (simp add: reader_iter_def)
  qed
qed (use assms in \<open>simp_all add: reader_iter_def\<close>)

lemma publisher_iter_bounded:
  "length (out_queue (publisher_iter R st now)) \<le> length (out_queue st)"
  by (cases "out_queue st") (simp_all add: publisher_iter_def get_nowait_def Let_def)

lemma bridge_run_bounded:
  assumes "0 < N"
  shows "int (length (out_queue (bridge_run R N initial_state evs))) \<le> N"
proof (induction evs rule: rev_induct)
  case Nil
  from assms show ?case by (simp add: bridge_run_def initial_state_def)
next
  case (snoc ev evs)
  show ?case
  proof (cases ev)
    case (Reader r)
    with snoc assms show ?thesis
      by (simp add: bridge_run_snoc bridge_step_def reader_iter_bounded)
  next
    case (Publisher now)
    with snoc publisher_iter_bounded [of R "bridge_run R N initial_state evs" now]
    show ?thesis by (simp add: bridge_run_snoc bridge_step_def)
  qed
qed

subsection \<open>The bound on the queue\<close>

lemma push_with_gets_not_full:
  "\<not> (0 < N \<and> N \<le> int (length q)) \<Longrightarrow> push_with_gets N k1 k2 q x = q @ [x]"
  by (auto simp: push_with_gets_def put_nowait_def)

lemma push_with_gets_full:
  assumes "0 < N" "int (length q) = N"
  shows "push_with_gets N k1 k2 q x =
           (if k1 < length q then drop (Suc k1 + k2) q @ [x] else [])"
proof (cases "k1 < length q")
  case True
  then have d: "drop k1 q = q ! k1 # drop (Suc k1) q"
    by (simp add: Cons_nth_drop_Suc)
  have "int (length (drop k2 (drop (Suc k1) q))) < N"
    using assms True by simp
  with assms True d show ?thesis
    by (simp add: push_with_gets_def put_nowait_def get_nowait_def add.commute)
next
  case False
  with assms show ?thesis
    by (simp add: push_with_gets_def put_nowait_def get_nowait_def)
qed

lemma push_with_gets_length:
  assumes "0 < N" "int (length q) \<le> N"
  shows "int (length (push_with_gets N k1 k2 q x)) \<le> N"
proof (cases "int (length q) = N")
  case True
  with assms(1) show ?thesis
    by (simp add: push_with_gets_full [OF assms(1) True]) linarith
next
  case False
  with assms push_with_gets_not_full [of N q k1 k2 x] show ?thesis by simp
qed

text \<open>
  C3, for a capacity of at least one. The queue never holds more than \<open>N\<close> records:
  not after a push on a queue within its capacity, whatever the publisher takes
  meanwhile, and at no point of a run of the bridge. A push on a queue that is not full
  appends the record. A push on a full queue, when the publisher takes nothing between
  its queue calls, removes the oldest record, keeps the others in their order and appends
  the new record. With a capacity of zero or less every push appends the record.
\<close>

theorem push_drop_oldest_bounded:
  "(0 < N \<and> int (length q) \<le> N \<longrightarrow>
        int (length (push_with_gets N k1 k2 q x)) \<le> N
      \<and> int (length (out_queue (bridge_run R N initial_state evs))) \<le> N
      \<and> (int (length q) < N \<longrightarrow> push_with_gets N k1 k2 q x = q @ [x])
      \<and> (int (length q) = N \<longrightarrow>
            q = hd q # tl q \<and> push_with_gets N 0 0 q x = tl q @ [x]
            \<and> push_drop_oldest N q x = tl q @ [x]))
   \<and> (N \<le> 0 \<longrightarrow> push_with_gets N k1 k2 q x = q @ [x] \<and> push_drop_oldest N q x = q @ [x])"
proof -
  have "push_with_gets N 0 0 q x = push_drop_oldest N q x"
    by (simp add: push_drop_oldest_def)
  with push_with_gets_length [of N q k1 k2 x] push_with_gets_not_full [of N q k1 k2 x]
    push_not_full [of N q x] push_full [of N q x] bridge_run_bounded [of N R evs]
  show ?thesis by auto
qed

theorem push_drop_oldest_bounded_witness:
  "(0::int) < 3 \<and> int (length [10, 20, 30 :: nat]) \<le> 3
   \<and> push_with_gets 3 0 0 [10, 20, 30 :: nat] 40 = [20, 30, 40]
   \<and> push_drop_oldest 3 [10, 20, 30 :: nat] 40 = [20, 30, 40]
   \<and> push_with_gets 3 1 1 [10, 20 :: nat] 30 = [10, 20, 30]
   \<and> push_with_gets 0 0 0 [10, 20, 30 :: nat] 40 = [10, 20, 30, 40]"
  using push_drop_oldest_bounded [of 3 "[10, 20, 30 :: nat]" 0 0 40]
    push_drop_oldest_bounded [of 3 "[10, 20 :: nat]" 1 1 30]
    push_drop_oldest_bounded [of 0 "[10, 20, 30 :: nat]" 0 0 40]
  by simp

text \<open>
  With a capacity of zero the queue is unbounded: the first accepted message makes it
  longer than its capacity. With a capacity of one and a full queue, the new record is
  lost when the publisher takes the queued record between the \<^verbatim>\<open>put_nowait\<close> that
  raises and the \<^verbatim>\<open>get_nowait\<close>.
\<close>

theorem enqueue_counterexample:
  "\<not> int (length (out_queue (reader_iter 0 initial_state (Recv_msg position_example 1700000000)))) \<le> 0
   \<and> push_with_gets 1 1 0 [10 :: nat] 20 = []"
proof -
  have "\<not> int (length (out_queue (reader_iter 0 initial_state
            (Recv_msg position_example 1700000000)))) \<le> 0"
    by (simp add: reader_iter_def initial_state_def build_telemetry_from_msg_def
      position_example_def update_or_none_def position_fields_def scaled_def scaled_or_none_def
      getattr_def getattr_default_def ebind_def truediv_PInt push_drop_oldest_unfold
      put_nowait_def Let_def)
  moreover have "push_with_gets 1 1 0 [10 :: nat] 20 = []"
    by (simp add: push_with_gets_def put_nowait_def get_nowait_def)
  ultimately show ?thesis by simp
qed

subsection \<open>The sequence counter\<close>

text \<open>
  C2. The counter is 0 before the first message; after any run of the bridge it is the
  number of messages that the reader observed, whatever the normalizer made of them, so
  the first observed message gets 1. An iteration that observes a message adds exactly
  one, and a record that is accepted goes on the queue with the counter's new value as
  its \<open>seq\<close>.
\<close>

theorem seq_counts_observed_events:
  "seq initial_state = 0
   \<and> seq (bridge_run R N initial_state evs) = int (length (filter observed evs))
   \<and> (filter observed evs = [] \<longrightarrow>
        seq (bridge_run R N initial_state (evs @ [Reader (Recv_msg msg now)])) = 1)
   \<and> seq (reader_iter N st (Recv_msg msg now)) = seq st + 1
   \<and> (\<forall>t. build_telemetry_from_msg msg (seq st + 1) now = Some t \<longrightarrow>
          out_queue (reader_iter N st (Recv_msg msg now)) =
            push_drop_oldest N (out_queue st) (velocity_fallback t)
          \<and> seq_of (velocity_fallback t) = Some (PInt (seq st + 1)))"
proof -
  have 0: "seq initial_state = 0" by (simp add: initial_state_def)
  have 1: "seq (bridge_run R N initial_state evs) = int (length (filter observed evs))"
    using bridge_run_seq [of R N initial_state evs] 0 by simp
  have 2: "filter observed evs = [] \<longrightarrow>
        seq (bridge_run R N initial_state (evs @ [Reader (Recv_msg msg now)])) = 1"
    using bridge_run_seq [of R N initial_state "evs @ [Reader (Recv_msg msg now)]"] 0
    by (simp add: observed_def)
  from 0 1 2 reader_iter_seq [of N st msg now]
    reader_iter_accepted [where msg = msg and st = st and now = now and N = N]
  show ?thesis by blast
qed

theorem seq_counts_observed_events_witness:
  "seq (bridge_run 5 200 initial_state mixed_run) = 1
   \<and> seq (bridge_run 5 200 initial_state
           (mixed_run @ [Reader (Recv_msg position_example 1700000002)])) = 2
   \<and> seq (bridge_run 5 200 initial_state
           [Reader Recv_none, Publisher 1700000001, Reader (Recv_msg position_example 1700000002)]) = 1
   \<and> (\<exists>t. build_telemetry_from_msg position_example 2 1700000002 = Some t \<and>
          out_queue (reader_iter 200 (bridge_run 5 200 initial_state mixed_run)
                       (Recv_msg position_example 1700000002)) = [velocity_fallback t] \<and>
          seq_of (velocity_fallback t) = Some (PInt 2))"
proof -
  let ?st = "bridge_run 5 200 initial_state mixed_run"
  have 1: "seq ?st = 1"
    using seq_counts_observed_events [of 5 200 mixed_run]
    by (simp add: mixed_run_def observed_def)
  have 2: "seq (bridge_run 5 200 initial_state
           (mixed_run @ [Reader (Recv_msg position_example 1700000002)])) = 2"
    using seq_counts_observed_events
      [of 5 200 "mixed_run @ [Reader (Recv_msg position_example 1700000002)]"]
    by (simp add: mixed_run_def observed_def)
  have 3: "seq (bridge_run 5 200 initial_state
           [Reader Recv_none, Publisher 1700000001, Reader (Recv_msg position_example 1700000002)]) = 1"
    using seq_counts_observed_events
      [of 5 200 "[Reader Recv_none, Publisher 1700000001]" position_example 1700000002]
    by (simp add: observed_def)
  have bad: "build_telemetry_from_msg bad_position 1 1700000000 = None"
    by (simp add: build_None_iff extraction_fails_def bad_position_def optional_fails_def
        as_real_def int64_converts)
  have q: "out_queue ?st = []"
    by (simp add: mixed_run_def bridge_run_def bridge_step_def reader_iter_def publisher_iter_def
        get_nowait_def initial_state_def bad)
  obtain t where t: "build_telemetry_from_msg position_example 2 1700000002 = Some t"
    by (simp add: build_telemetry_from_msg_def position_example_def update_or_none_def
      position_fields_def scaled_def scaled_or_none_def getattr_def getattr_default_def
      ebind_def truediv_def int64_converts)
  have "out_queue (reader_iter 200 ?st (Recv_msg position_example 1700000002)) = [velocity_fallback t]
        \<and> seq_of (velocity_fallback t) = Some (PInt 2)"
    using seq_counts_observed_events [of 5 200 "[]" position_example 1700000002 ?st] t 1 q
    by (simp add: push_drop_oldest_unfold put_nowait_def)
  with 1 2 3 t show ?thesis by blast
qed

subsection \<open>A burst of messages with no consumer\<close>

lemma feed_accepted:
  assumes "0 < N" and "\<forall>r \<in> set rs. accepted r"
  shows "seq (bridge_run R N initial_state (map Reader rs)) = int (length rs)
       \<and> map seq_of (out_queue (bridge_run R N initial_state (map Reader rs)))
           = keep_last (nat N) (map (\<lambda>i. Some (PInt i)) [1..int (length rs)])"
  using assms(2)
proof (induction rs rule: rev_induct)
  case Nil
  show ?case by (simp add: bridge_run_def initial_state_def keep_last_def)
next
  case (snoc r rs)
  let ?st = "bridge_run R N initial_state (map Reader rs)"
  from snoc have IH: "seq ?st = int (length rs)"
    "map seq_of (out_queue ?st) = keep_last (nat N) (map (\<lambda>i. Some (PInt i)) [1..int (length rs)])"
    by simp_all
  from snoc.prems have "accepted r" by simp
  then obtain msg now where r: "r = Recv_msg msg now"
    and ok: "recognized (get_type msg)" "\<not> extraction_fails msg"
    by (cases r) (auto simp: accepted_def)
  from ok obtain t where t: "build_telemetry_from_msg msg (seq ?st + 1) now = Some t"
    using build_None_iff [of msg "seq ?st + 1" now] by auto
  have len: "int (length (out_queue ?st)) \<le> N"
  proof -
    have "length (map seq_of (out_queue ?st)) \<le> nat N"
      unfolding IH(2) by (simp add: length_keep_last)
    with assms(1) show ?thesis by simp
  qed
  have step: "bridge_run R N initial_state (map Reader (rs @ [r])) = reader_iter N ?st (Recv_msg msg now)"
    by (simp add: bridge_run_snoc bridge_step_def r)
  have u: "[1..int (length (rs @ [r]))] = [1..int (length rs)] @ [int (length rs) + 1]"
    using upto_rec2 [of 1 "int (length rs) + 1"] by (simp add: add.commute)
  have s: "seq (reader_iter N ?st (Recv_msg msg now)) = int (length (rs @ [r]))"
    using reader_iter_seq [of N ?st msg now] IH(1) by simp
  have "map seq_of (out_queue (reader_iter N ?st (Recv_msg msg now)))
        = map seq_of (keep_last (nat N) (out_queue ?st @ [velocity_fallback t]))"
    using reader_iter_accepted [OF t, of N] push_keep_last [OF assms(1) len] by simp
  also have "\<dots> = keep_last (nat N) (map seq_of (out_queue ?st) @ [Some (PInt (seq ?st + 1))])"
    using reader_iter_accepted [OF t, of N] by (simp add: keep_last_map [symmetric])
  also have "\<dots> = keep_last (nat N) (map (\<lambda>i. Some (PInt i)) [1..int (length rs)]
                        @ [Some (PInt (int (length rs) + 1))])"
    using assms(1) by (simp add: IH keep_last_snoc)
  also have "\<dots> = keep_last (nat N) (map (\<lambda>i. Some (PInt i)) [1..int (length (rs @ [r]))])"
    unfolding u by simp
  finally show ?case using s step by simp
qed

text \<open>
  C9, with the events numbered as the reader numbers them. After 250 accepted messages
  and no iteration of the publish loop, a queue of capacity 200 holds 200 records: those of
  the messages 51 to 250, in order.
\<close>

theorem burst_keeps_newest:
  assumes "length rs = 250" and "\<forall>r \<in> set rs. accepted r"
  shows "length (out_queue (bridge_run R 200 initial_state (map Reader rs))) = 200
       \<and> map seq_of (out_queue (bridge_run R 200 initial_state (map Reader rs)))
           = map (\<lambda>i. Some (PInt i)) [51..250]"
proof -
  have eq: "map seq_of (out_queue (bridge_run R 200 initial_state (map Reader rs)))
           = keep_last 200 (map (\<lambda>i. Some (PInt i)) [1..250])"
    using feed_accepted [of 200 rs R] assms by simp
  have "[1..250::int] = [1..50] @ [51..250]"
    using upto_split1 [of 1 51 250] by simp
  then have "keep_last 200 (map (\<lambda>i. Some (PInt i)) [1..250])
       = map (\<lambda>i. Some (PInt i)) [51..250]"
    by (simp add: keep_last_def)
  with eq have m: "map seq_of (out_queue (bridge_run R 200 initial_state (map Reader rs)))
           = map (\<lambda>i. Some (PInt i)) [51..250]" by simp
  then have "length (map seq_of (out_queue (bridge_run R 200 initial_state (map Reader rs))))
           = length (map (\<lambda>i. Some (PInt i)) [51..250::int])" by simp
  then have "length (out_queue (bridge_run R 200 initial_state (map Reader rs))) = 200" by simp
  with m show ?thesis by simp
qed

lemma burst_ok: "length burst = 250" "\<forall>r \<in> set burst. accepted r"
  by (simp_all add: burst_def accepted_def extraction_fails_def position_example_def optional_fails_def
        required_fails_def raw_def as_real_def int64_converts recognized_def)

theorem burst_keeps_newest_witness:
  "length burst = 250
   \<and> length (out_queue (bridge_run 5 200 initial_state (map Reader burst))) = 200
   \<and> map seq_of (out_queue (bridge_run 5 200 initial_state (map Reader burst)))
           = map (\<lambda>i. Some (PInt i)) [51..250]"
  using burst_keeps_newest [OF burst_ok, of 5] burst_ok by simp

text \<open>The queue does not hold the events 51 to 300: there are only 250 events.\<close>

theorem burst_counterexample:
  "\<not> (length (out_queue (bridge_run 5 200 initial_state (map Reader burst))) = 200
      \<and> map seq_of (out_queue (bridge_run 5 200 initial_state (map Reader burst)))
          = map (\<lambda>i. Some (PInt i)) [51..300])"
proof
  assume "length (out_queue (bridge_run 5 200 initial_state (map Reader burst))) = 200
      \<and> map seq_of (out_queue (bridge_run 5 200 initial_state (map Reader burst)))
          = map (\<lambda>i. Some (PInt i)) [51..300]"
  then have l: "length (out_queue (bridge_run 5 200 initial_state (map Reader burst))) = 200"
    and "length (map seq_of (out_queue (bridge_run 5 200 initial_state (map Reader burst))))
          = length (map (\<lambda>i. Some (PInt i)) [51..300::int])"
    by simp_all
  then have "length (out_queue (bridge_run 5 200 initial_state (map Reader burst))) = 250"
    by simp
  with l show False by simp
qed

section \<open>Properties of the velocity fallback\<close>

lemma cm_per_s_truediv:
  "cm_per_s t key = Some x \<Longrightarrow> truediv (dict_get t key (PInt 0)) 100 = Inr (x / 100)"
  by (auto simp: cm_per_s_def dict_get_def truediv_Inr as_real_def int64_converts split: option.splits)

lemma cm_per_s_truediv_fails:
  "cm_per_s t key = None \<Longrightarrow> \<exists>e. truediv (dict_get t key (PInt 0)) 100 = Inl e"
  by (auto simp: cm_per_s_def dict_get_def truediv_Inl split: option.splits)

lemma powr_half_norm: "(a * a + b * b) powr (1 / 2) = sqrt (a\<^sup>2 + b\<^sup>2)" for a b :: real
  by (simp add: powr_half_sqrt power2_eq_square)

lemma velocity_fallback_synth:
  assumes "t ''velocity'' = None" and "t ''vx'' \<noteq> None \<or> t ''vy'' \<noteq> None"
      and "cm_per_s t ''vx'' = Some vx" and "cm_per_s t ''vy'' = Some vy"
  shows "velocity_fallback t =
           (t(''velocity'' \<mapsto> PFloat (sqrt ((vx / 100)\<^sup>2 + (vy / 100)\<^sup>2))))
             (''vx'' := None, ''vy'' := None)"
  using assms
  by (simp add: velocity_fallback_def ebind_def cm_per_s_truediv powr_half_norm)

lemma velocity_fallback_none:
  "t ''vx'' = None \<Longrightarrow> t ''vy'' = None \<Longrightarrow> velocity_fallback t = t"
  by (simp add: velocity_fallback_def)

lemma velocity_fallback_fails:
  assumes "cm_per_s t ''vx'' = None \<or> cm_per_s t ''vy'' = None"
  shows "velocity_fallback t = t"
proof (cases "cm_per_s t ''vx''")
  case None
  then obtain e where "truediv (dict_get t ''vx'' (PInt 0)) 100 = Inl e"
    using cm_per_s_truediv_fails by blast
  then show ?thesis by (simp add: velocity_fallback_def ebind_def)
next
  case (Some vx)
  with assms obtain e where "truediv (dict_get t ''vy'' (PInt 0)) 100 = Inl e"
    using cm_per_s_truediv_fails by fastforce
  with Some show ?thesis by (simp add: velocity_fallback_def ebind_def cm_per_s_truediv)
qed

text \<open>
  C4. A record without \<open>velocity\<close> and with at least one of \<open>vx\<close>, \<open>vy\<close>, whose
  components are numbers of centimetres per second (a missing one counting as 0), gains
  \<open>velocity = sqrt ((vx / 100)\<^sup>2 + (vy / 100)\<^sup>2)\<close> and loses \<open>vx\<close> and \<open>vy\<close>. A
  record with neither \<open>vx\<close> nor \<open>vy\<close> is left as it is: no velocity is synthesized.
\<close>

theorem velocity_synthesized:
  "(t ''velocity'' = None \<and> (t ''vx'' \<noteq> None \<or> t ''vy'' \<noteq> None)
      \<and> cm_per_s t ''vx'' = Some vx \<and> cm_per_s t ''vy'' = Some vy \<longrightarrow>
        velocity_fallback t ''velocity'' = Some (PFloat (sqrt ((vx / 100)\<^sup>2 + (vy / 100)\<^sup>2)))
        \<and> ''vx'' \<notin> dom (velocity_fallback t) \<and> ''vy'' \<notin> dom (velocity_fallback t))
   \<and> (t ''vx'' = None \<and> t ''vy'' = None \<longrightarrow> velocity_fallback t = t)"
  using velocity_fallback_synth [of t vx vy] velocity_fallback_none [of t]
  by (auto simp: dom_def)

lemma sqrt_25: "sqrt ((300 / 100)\<^sup>2 + (400 / 100)\<^sup>2) = 5"
  by (rule real_sqrt_unique) (simp_all add: power2_eq_square)

theorem velocity_synthesized_witness:
  "moving_record ''velocity'' = None \<and> moving_record ''vx'' \<noteq> None
   \<and> cm_per_s moving_record ''vx'' = Some 300 \<and> cm_per_s moving_record ''vy'' = Some 400
   \<and> velocity_fallback moving_record ''velocity'' = Some (PFloat 5)
   \<and> ''vx'' \<notin> dom (velocity_fallback moving_record)
   \<and> ''vy'' \<notin> dom (velocity_fallback moving_record)
   \<and> velocity_fallback [''seq'' \<mapsto> PInt 1] = [''seq'' \<mapsto> PInt 1]
   \<and> (\<exists>t. build_telemetry_from_msg moving_position 1 1700000000 = Some t
          \<and> t ''velocity'' = None \<and> t ''vx'' = Some (PInt 300) \<and> t ''vy'' = Some (PInt 400)
          \<and> velocity_fallback t ''velocity'' = Some (PFloat 5)
          \<and> ''vx'' \<notin> dom (velocity_fallback t) \<and> ''vy'' \<notin> dom (velocity_fallback t))"
proof -
  have h: "moving_record ''velocity'' = None" "moving_record ''vx'' \<noteq> None"
    "cm_per_s moving_record ''vx'' = Some 300" "cm_per_s moving_record ''vy'' = Some 400"
    by (simp_all add: moving_record_def cm_per_s_def as_real_def int64_converts)
  have 1: "velocity_fallback moving_record ''velocity'' = Some (PFloat 5)
     \<and> ''vx'' \<notin> dom (velocity_fallback moving_record)
     \<and> ''vy'' \<notin> dom (velocity_fallback moving_record)"
    using velocity_synthesized [of moving_record 300 400] h sqrt_25 by simp
  have 3: "velocity_fallback [''seq'' \<mapsto> PInt 1] = [''seq'' \<mapsto> PInt 1]"
    using velocity_synthesized [of "[''seq'' \<mapsto> PInt 1]" 0 0] by simp
  have "\<not> extraction_fails moving_position" "recognized (get_type moving_position)"
    by (simp_all add: extraction_fails_def moving_position_def optional_fails_def
        required_fails_def raw_def as_real_def int64_converts recognized_def)
  then obtain t where t: "build_telemetry_from_msg moving_position 1 1700000000 = Some t"
    using build_None_iff [of moving_position 1 1700000000] by auto
  have tv: "t ''velocity'' = None"
    using t by (auto simp: build_telemetry_from_msg_def moving_position_def update_or_none_Some
        position_fields_Inr remove_none_def)
  have tx: "t ''vx'' = Some (PInt 300)"
    using build_copied [OF t, of "''vx''" "''vx''" "PInt 300"]
    by (simp add: copied_fields_def moving_position_def)
  have ty: "t ''vy'' = Some (PInt 400)"
    using build_copied [OF t, of "''vy''" "''vy''" "PInt 400"]
    by (simp add: copied_fields_def moving_position_def)
  have "cm_per_s t ''vx'' = Some 300" "cm_per_s t ''vy'' = Some 400"
    by (simp_all add: cm_per_s_def tx ty as_real_PInt)
  then have 4: "velocity_fallback t ''velocity'' = Some (PFloat 5)
     \<and> ''vx'' \<notin> dom (velocity_fallback t) \<and> ''vy'' \<notin> dom (velocity_fallback t)"
    using velocity_synthesized [of t 300 400] tv tx sqrt_25 by simp
  from h 1 3 t tv tx ty 4 show ?thesis by blast
qed

text \<open>
  C10. The velocity fallback changes no key other than \<open>vx\<close>, \<open>vy\<close> and
  \<open>velocity\<close>: in particular \<open>vz\<close> and \<open>hdg\<close> keep their values, and no key other
  than \<open>vx\<close> and \<open>vy\<close> is removed.
\<close>

theorem velocity_fallback_frame:
  "(\<forall>k. k \<noteq> ''vx'' \<and> k \<noteq> ''vy'' \<and> k \<noteq> ''velocity'' \<longrightarrow> velocity_fallback t k = t k)
   \<and> velocity_fallback t ''vz'' = t ''vz''
   \<and> velocity_fallback t ''hdg'' = t ''hdg''
   \<and> dom t - {''vx'', ''vy''} \<subseteq> dom (velocity_fallback t)"
proof -
  have 1: "\<forall>k. k \<noteq> ''vx'' \<and> k \<noteq> ''vy'' \<and> k \<noteq> ''velocity'' \<longrightarrow> velocity_fallback t k = t k"
    by (simp add: velocity_fallback_other)
  have 2: "dom t - {''vx'', ''vy''} \<subseteq> dom (velocity_fallback t)"
  proof
    fix k assume k: "k \<in> dom t - {''vx'', ''vy''}"
    show "k \<in> dom (velocity_fallback t)"
    proof (cases "k = ''velocity''")
      case True
      with k have "t ''velocity'' \<noteq> None" by auto
      then have "velocity_fallback t = t" by (auto simp: velocity_fallback_def)
      with k show ?thesis by simp
    next
      case False
      with k 1 have "velocity_fallback t k = t k" by simp
      with k show ?thesis by (auto simp: dom_def)
    qed
  qed
  from 1 2 show ?thesis by simp
qed

theorem velocity_fallback_frame_witness:
  "velocity_fallback moving_record ''velocity'' \<noteq> moving_record ''velocity''
   \<and> velocity_fallback moving_record ''vz'' = Some (PInt (- 50))
   \<and> velocity_fallback moving_record ''hdg'' = Some (PFloat 90)
   \<and> velocity_fallback moving_record ''lat'' = Some (PFloat 47.3397)
   \<and> ''seq'' \<in> dom (velocity_fallback moving_record)"
proof -
  have "cm_per_s moving_record ''vx'' = Some 300" "cm_per_s moving_record ''vy'' = Some 400"
    by (simp_all add: moving_record_def cm_per_s_def as_real_def int64_converts)
  then have "velocity_fallback moving_record ''velocity'' \<noteq> moving_record ''velocity''"
    by (subst velocity_fallback_synth [of moving_record 300 400])
       (simp_all add: moving_record_def)
  moreover have "''seq'' \<in> dom moving_record - {''vx'', ''vy''}"
    by (simp add: moving_record_def)
  ultimately show ?thesis
    using velocity_fallback_frame [of moving_record]
    by (auto simp: moving_record_def)
qed

section \<open>Properties of the publish loop\<close>

lemma reader_iter_published:
  "published (reader_iter N st r) = published st" "last_pub (reader_iter N st r) = last_pub st"
  by (cases r; simp add: reader_iter_def Let_def split: option.splits)+

lemma publisher_iter_empty: "out_queue st = [] \<Longrightarrow> publisher_iter R st now = st"
  by (simp add: publisher_iter_def get_nowait_def)

lemma publisher_iter_drop:
  "out_queue st = t # rest \<Longrightarrow> now - last_pub st < publish_interval R \<Longrightarrow>
   publisher_iter R st now = st\<lparr>out_queue := rest\<rparr>"
  by (simp add: publisher_iter_def get_nowait_def)

lemma publisher_iter_publish:
  "out_queue st = t # rest \<Longrightarrow> \<not> now - last_pub st < publish_interval R \<Longrightarrow>
   publisher_iter R st now =
     st\<lparr>out_queue := rest, published := published st @ [(now, t)], last_pub := now\<rparr>"
  by (simp add: publisher_iter_def get_nowait_def)

lemma spaced_snoc:
  "spaced d (ts @ [b]) \<longleftrightarrow> spaced d ts \<and> (ts \<noteq> [] \<longrightarrow> d \<le> b - last ts)"
  by (auto simp: spaced_def successively_append_iff)

lemma publisher_iter_inv:
  assumes "spacing_inv (publish_interval R) st"
  shows "spacing_inv (publish_interval R) (publisher_iter R st now)"
proof (cases "out_queue st")
  case Nil
  with assms show ?thesis by (simp add: publisher_iter_empty)
next
  case (Cons t rest)
  show ?thesis
  proof (cases "now - last_pub st < publish_interval R")
    case True
    with Cons assms show ?thesis
      by (simp add: publisher_iter_drop spacing_inv_def publish_times_def)
  next
    case False
    with Cons assms show ?thesis
      by (auto simp: publisher_iter_publish spacing_inv_def publish_times_def spaced_snoc last_map)
  qed
qed

lemma bridge_step_inv:
  assumes "spacing_inv (publish_interval R) st"
  shows "spacing_inv (publish_interval R) (bridge_step R N st ev)"
proof (cases ev)
  case (Reader r)
  with assms show ?thesis
    by (simp add: bridge_step_def spacing_inv_def publish_times_def reader_iter_published)
next
  case (Publisher now)
  with assms show ?thesis by (simp add: bridge_step_def publisher_iter_inv)
qed

lemma bridge_run_inv: "spacing_inv (publish_interval R) (bridge_run R N initial_state evs)"
proof (induction evs rule: rev_induct)
  case Nil
  show ?case
    by (simp add: bridge_run_def initial_state_def spacing_inv_def publish_times_def spaced_def)
next
  case (snoc ev evs)
  then show ?case by (simp add: bridge_run_snoc bridge_step_inv)
qed

lemma publish_interval_rate: "1 / 10 \<le> R \<Longrightarrow> publish_interval R = 1 / R"
  by (simp add: publish_interval_def max_def)

text \<open>
  C5, with the interval of the code in place of \<open>1 / R\<close>. The publish interval is
  \<open>1 / max 0.1 R\<close> seconds, which is \<open>1 / R\<close> for a rate of at least 0.1 Hz. In
  every run of the bridge, two consecutive publishes are at least the publish interval
  apart, by the timestamps taken before each publish; so they are at least \<open>1 / R\<close>
  apart when the rate is at least 0.1 Hz. A record taken from the queue sooner than the
  interval after the last publish is dropped: the iteration only removes it from the queue.
\<close>

theorem publish_spacing:
  "publish_interval R = 1 / max (1 / 10) R
   \<and> (1 / 10 \<le> R \<longrightarrow> publish_interval R = 1 / R)
   \<and> spaced (publish_interval R) (publish_times (bridge_run R N initial_state evs))
   \<and> (1 / 10 \<le> R \<longrightarrow> spaced (1 / R) (publish_times (bridge_run R N initial_state evs)))
   \<and> (out_queue st = t # rest \<and> now - last_pub st < publish_interval R \<longrightarrow>
        publisher_iter R st now = st\<lparr>out_queue := rest\<rparr>)"
proof -
  have 1: "spaced (publish_interval R) (publish_times (bridge_run R N initial_state evs))"
    using bridge_run_inv [of R N evs] by (simp add: spacing_inv_def)
  have 2: "1 / 10 \<le> R \<longrightarrow> spaced (1 / R) (publish_times (bridge_run R N initial_state evs))"
    using 1 publish_interval_rate [of R] by auto
  from 1 2 publish_interval_rate [of R] publisher_iter_drop [of st t rest now R]
  show ?thesis by (simp add: publish_interval_def)
qed

lemma position_example_record:
  "\<exists>t. build_telemetry_from_msg position_example n now = Some t"
  using build_None_iff [of position_example n now]
  by (cases "build_telemetry_from_msg position_example n now")
     (simp_all add: extraction_fails_def position_example_def optional_fails_def
        required_fails_def raw_def as_real_def int64_converts recognized_def)

lemma reader_iter_position_example:
  "length q < 200 \<Longrightarrow>
   \<exists>t. reader_iter 200 \<lparr>seq = n, last_pub = l, out_queue = q, published = p\<rparr>
          (Recv_msg position_example now)
        = \<lparr>seq = n + 1, last_pub = l, out_queue = q @ [t], published = p\<rparr>"
  using position_example_record [of "n + 1" now]
  by (auto simp: reader_iter_def push_drop_oldest_unfold put_nowait_def)

lemma slow_run_times:
  "publish_times (bridge_run (1 / 20) 200 initial_state slow_run) = [1700000002, 1700000012]"
proof -
  obtain t1 where 1: "reader_iter 200 initial_state (Recv_msg position_example 1700000000)
      = \<lparr>seq = 1, last_pub = 0, out_queue = [t1], published = []\<rparr>"
    using reader_iter_position_example [of "[]" 0 0 "[]" 1700000000]
    by (auto simp: initial_state_def)
  obtain t2 where 2: "reader_iter 200 \<lparr>seq = 1, last_pub = 0, out_queue = [t1], published = []\<rparr>
        (Recv_msg position_example 1700000001)
      = \<lparr>seq = 2, last_pub = 0, out_queue = [t1, t2], published = []\<rparr>"
    using reader_iter_position_example [of "[t1]" 1 0 "[]" 1700000001] by auto
  show ?thesis
    by (simp add: slow_run_def bridge_run_def bridge_step_def 1 2 publish_times_def
        publisher_iter_def get_nowait_def publish_interval_def)
qed

lemma fast_run_times:
  "publish_times (bridge_run 2 200 initial_state fast_run) = [1700000000.3, 1700000000.9]
   \<and> out_queue (bridge_run 2 200 initial_state fast_run) = []"
proof -
  obtain t1 where 1: "reader_iter 200 initial_state (Recv_msg position_example 1700000000)
      = \<lparr>seq = 1, last_pub = 0, out_queue = [t1], published = []\<rparr>"
    using reader_iter_position_example [of "[]" 0 0 "[]" 1700000000]
    by (auto simp: initial_state_def)
  obtain t2 where 2: "reader_iter 200 \<lparr>seq = 1, last_pub = 0, out_queue = [t1], published = []\<rparr>
        (Recv_msg position_example 1700000000)
      = \<lparr>seq = 2, last_pub = 0, out_queue = [t1, t2], published = []\<rparr>"
    using reader_iter_position_example [of "[t1]" 1 0 "[]" 1700000000] by auto
  obtain t3 where 3: "reader_iter 200 \<lparr>seq = 2, last_pub = 0, out_queue = [t1, t2], published = []\<rparr>
        (Recv_msg position_example 1700000000)
      = \<lparr>seq = 3, last_pub = 0, out_queue = [t1, t2, t3], published = []\<rparr>"
    using reader_iter_position_example [of "[t1, t2]" 2 0 "[]" 1700000000] by auto
  show ?thesis
    by (simp add: fast_run_def bridge_run_def bridge_step_def 1 2 3 publish_times_def
        publisher_iter_def get_nowait_def publish_interval_def)
qed

theorem publish_spacing_witness:
  "(1 / 10 :: real) \<le> 2 \<and> publish_interval 2 = 1 / 2
   \<and> publish_times (bridge_run 2 200 initial_state fast_run) = [1700000000.3, 1700000000.9]
   \<and> spaced (1 / 2) (publish_times (bridge_run 2 200 initial_state fast_run))
   \<and> out_queue (bridge_run 2 200 initial_state fast_run) = []
   \<and> publisher_iter 2 \<lparr>seq = 2, last_pub = 100, out_queue = [Map.empty, Map.empty], published = []\<rparr>
        100.1
       = \<lparr>seq = 2, last_pub = 100, out_queue = [Map.empty], published = []\<rparr>"
proof -
  have "publisher_iter 2 \<lparr>seq = 2, last_pub = 100, out_queue = [Map.empty, Map.empty], published = []\<rparr>
        100.1
       = \<lparr>seq = 2, last_pub = 100, out_queue = [Map.empty], published = []\<rparr>"
    using publish_spacing
      [of 2 200 "[]" "\<lparr>seq = 2, last_pub = 100, out_queue = [Map.empty, Map.empty], published = []\<rparr>"
         Map.empty "[Map.empty]" "100.1"]
    by simp
  moreover have "publish_interval 2 = 1 / 2
     \<and> spaced (1 / 2) (publish_times (bridge_run 2 200 initial_state fast_run))"
    using publish_spacing [of 2 200 fast_run] by simp
  ultimately show ?thesis using fast_run_times by simp
qed

text \<open>
  At a rate of 0.05 Hz the interval is 10 seconds, not 20: two records taken from the
  queue ten seconds apart are both published.
\<close>

theorem slow_rate_counterexample:
  "publish_times (bridge_run (1 / 20) 200 initial_state slow_run) = [1700000002, 1700000012]
   \<and> \<not> spaced (1 / (1 / 20)) (publish_times (bridge_run (1 / 20) 200 initial_state slow_run))"
  by (simp add: slow_run_times spaced_def)

section \<open>Properties of the start-up\<close>

text \<open>
  C7, as the code behaves. When the password file cannot be read, \<^verbatim>\<open>read_password\<close>
  reports the error on standard error and returns \<^verbatim>\<open>None\<close>, and \<^verbatim>\<open>main\<close> goes
  on: it calls \<^verbatim>\<open>bridge_loop\<close> with no password.
\<close>

theorem unreadable_password_continues:
  assumes "arg_mqtt_pass_file args = Some p" and "p \<noteq> []" and "fs p = Inl e"
  shows "read_password fs (arg_mqtt_pass_file args)
           = (None, [Stderr (''[args] failed reading password file: '' @ e)])
       \<and> main args fs None
           = [Stderr (''[args] failed reading password file: '' @ e),
              Bridge_loop (arg_mav args)
                \<lparr>host = arg_mqtt_host args, port = arg_mqtt_port args,
                 username = arg_mqtt_user args, password = None,
                 tls_ca = arg_tls_ca args, tls_cert = arg_tls_cert args,
                 tls_key = arg_tls_key args\<rparr>
                (arg_topic args) (arg_rate args) (arg_queue_size args)]
       \<and> pipeline_started (main args fs r)"
  using assms by (simp add: read_password_def main_def)

theorem unreadable_password_continues_witness:
  "arg_mqtt_pass_file example_args = Some ''./secrets/mqtt_pass.txt''
   \<and> no_files ''./secrets/mqtt_pass.txt'' = Inl ''[Errno 2] No such file or directory''
   \<and> main example_args no_files None
       = [Stderr ''[args] failed reading password file: [Errno 2] No such file or directory'',
          Bridge_loop ''udp:127.0.0.1:14550''
            \<lparr>host = ''cloud.example.com'', port = 1883, username = Some ''drone'',
             password = None, tls_ca = None, tls_cert = None, tls_key = None\<rparr>
            ''drone/telemetry'' 5 200]"
proof -
  have a: "arg_mqtt_pass_file example_args = Some ''./secrets/mqtt_pass.txt''"
    by (simp add: example_args_def)
  have b: "''./secrets/mqtt_pass.txt'' \<noteq> []" by simp
  have c: "no_files ''./secrets/mqtt_pass.txt'' = Inl ''[Errno 2] No such file or directory''"
    by (simp add: no_files_def)
  show ?thesis
    using unreadable_password_continues
      [where args = example_args and fs = no_files and p = "''./secrets/mqtt_pass.txt''"
         and e = "''[Errno 2] No such file or directory''" and r = None] a c
    by (simp add: example_args_def)
qed

text \<open>
  With the arguments of the usage example and an unreadable password file, the pipeline
  is started and \<^verbatim>\<open>main\<close> does not exit.
\<close>

theorem startup_not_aborted_counterexample:
  "pipeline_started (main example_args no_files None)
   \<and> Sys_exit 1 \<notin> set (main example_args no_files None)"
  by (simp add: main_def read_password_def example_args_def no_files_def)

end
